theory Spec2Isabelle
  imports Main "HOL-Library.Finite_Map"
begin

section \<open>The id/name registry: \<open>IdNameMap\<close> of PropertySpecification.h\<close>

text \<open>
  \<open>IdNameMap<ID>\<close> holds \<open>std::vector<String> name_map\<close> (the id is the index) and
  \<open>UnorderedMap<String, ID> reverse_map\<close> (unique keys, finitely many of them: a finite
  map). The enums \<open>PropertyId\<close> and \<open>ShorthandId\<close> are declared in a header that is not
  part of the sources; an id is read here through its cast to \<open>size_t\<close>, as a natural
  number, with \<open>ID::Invalid\<close> being zero as the \<open>static_assert\<close> of the constructor demands.
  The casts between \<open>size_t\<close> and the enum are taken to lose nothing: the width of the
  enums is not known from the sources, and the specification lets the number of names
  grow without bound.
\<close>

record idmap =
  name_map :: "string list"
  reverse_map :: "(string, nat) fmap"

definition Invalid :: nat where
  "Invalid = 0"

text \<open>
  Modelled from the spec: the macro \<open>ROCKET_ASSERT\<close> is not defined in the sources. The
  specification calls a failed registry assertion assertion-level, fatal and
  non-recoverable, so a failed assertion ends the call with the value below and no
  registry state.
\<close>

datatype failure = AssertionFailure

text \<open>
  \<open>reverse_map.emplace(name, id)\<close>: inserts only when the key is absent. The result is the
  map, the id the returned iterator points at, and the \<open>inserted\<close> flag.
\<close>

definition emplace :: "(string, nat) fmap \<Rightarrow> string \<Rightarrow> nat \<Rightarrow> (string, nat) fmap \<times> nat \<times> bool" where
  "emplace m name i =
     (case fmlookup m name of
        None \<Rightarrow> (fmupd name i m, i, True)
      | Some j \<Rightarrow> (m, j, False))"

definition AddPair :: "idmap \<Rightarrow> nat \<Rightarrow> string \<Rightarrow> failure + idmap" where
  "AddPair s i name =
     (if \<not> i < length (name_map s) then Inl AssertionFailure
      else
        let names = (name_map s)[i := name];
            (rm, _, inserted) = emplace (reverse_map s) name i
        in if \<not> inserted then Inl AssertionFailure
           else Inr \<lparr>name_map = names, reverse_map = rm\<rparr>)"

text \<open>
  The constructor: \<open>name_map.resize(n)\<close> gives \<open>n\<close> empty strings, \<open>reserve\<close> changes no
  content, then \<open>AddPair(ID::Invalid, "invalid")\<close>.
\<close>

definition IdNameMap :: "nat \<Rightarrow> failure + idmap" where
  "IdNameMap num_ids_to_reserve =
     AddPair \<lparr>name_map = replicate num_ids_to_reserve [], reverse_map = fmempty\<rparr> Invalid ''invalid''"

definition GetId :: "idmap \<Rightarrow> string \<Rightarrow> nat" where
  "GetId s name = (case fmlookup (reverse_map s) name of Some i \<Rightarrow> i | None \<Rightarrow> Invalid)"

text \<open>
  \<open>GetName\<close> reads \<open>name_map[Invalid]\<close> for an id out of range. On an empty \<open>name_map\<close>
  that read is out of bounds (undefined behaviour in C++): the value \<open>None\<close>.
\<close>

definition GetName :: "idmap \<Rightarrow> nat \<Rightarrow> string option" where
  "GetName s i =
     (if i < length (name_map s) then Some (name_map s ! i)
      else if Invalid < length (name_map s) then Some (name_map s ! Invalid)
      else None)"

definition GetOrCreateId :: "idmap \<Rightarrow> string \<Rightarrow> nat \<times> idmap" where
  "GetOrCreateId s name =
     (let next_id = length (name_map s);
          (rm, found, inserted) = emplace (reverse_map s) name next_id;
          names = (if inserted then name_map s @ [name] else name_map s)
      in (found, \<lparr>name_map = names, reverse_map = rm\<rparr>))"

text \<open>\<open>reverse_map.size()\<close>.\<close>

definition reverse_size :: "idmap \<Rightarrow> nat" where
  "reverse_size s = fcard (fmdom (reverse_map s))"

text \<open>
  \<open>AssertAllInserted\<close>: the number of non-empty names and the size of the reverse map both
  equal the given id.
\<close>

definition AssertAllInserted :: "idmap \<Rightarrow> nat \<Rightarrow> failure + unit" where
  "AssertAllInserted s last_property_inserted =
     (let cnt = length (filter (\<lambda>name. name \<noteq> []) (name_map s))
      in if cnt = last_property_inserted \<and> reverse_size s = last_property_inserted
         then Inr () else Inl AssertionFailure)"

text \<open>The two derived registries and their constructors.\<close>

definition PropertyIdNameMap :: "nat \<Rightarrow> failure + idmap" where
  "PropertyIdNameMap reserve_num_properties = IdNameMap reserve_num_properties"

text \<open>
  \<open>ShorthandId::NumDefinedIds\<close> is a constant of the absent enum declaration: the first
  argument.
\<close>

definition ShorthandIdNameMap :: "nat \<Rightarrow> nat \<Rightarrow> failure + idmap" where
  "ShorthandIdNameMap NumDefinedIds reserve_num_shorthands = IdNameMap (2 * NumDefinedIds)"

subsection \<open>Sequences of registry calls\<close>

datatype registry_call = CallAddPair nat string | CallGetOrCreateId string

fun call :: "idmap \<Rightarrow> registry_call \<Rightarrow> failure + idmap" where
  "call s (CallAddPair i name) = AddPair s i name"
| "call s (CallGetOrCreateId name) = Inr (snd (GetOrCreateId s name))"

fun calls :: "idmap \<Rightarrow> registry_call list \<Rightarrow> failure + idmap" where
  "calls s [] = Inr s"
| "calls s (c # cs) = (case call s c of Inl e \<Rightarrow> Inl e | Inr s' \<Rightarrow> calls s' cs)"

text \<open>
  The states a program can see: built by the constructor, then changed by calls that all
  passed their assertions.
\<close>

definition reached :: "nat \<Rightarrow> registry_call list \<Rightarrow> failure + idmap" where
  "reached n cs = (case IdNameMap n of Inl e \<Rightarrow> Inl e | Inr s \<Rightarrow> calls s cs)"

subsection \<open>The bijection between slots and reverse-map entries\<close>

text \<open>
  Every non-empty slot has its entry in the reverse map, under its own index.
\<close>

definition slots_indexed :: "idmap \<Rightarrow> bool" where
  "slots_indexed s =
     (\<forall>(i, name) \<in> set (enumerate 0 (name_map s)).
        name \<noteq> [] \<longrightarrow> fmlookup (reverse_map s) name = Some i)"

text \<open>Every id of the reverse map is an index of \<open>name_map\<close>.\<close>

definition entries_in_range :: "idmap \<Rightarrow> bool" where
  "entries_in_range s = fmpred (\<lambda>name i. i < length (name_map s)) (reverse_map s)"

text \<open>Every entry of the reverse map is the non-empty name of the slot its id names.\<close>

definition entries_slotted :: "idmap \<Rightarrow> bool" where
  "entries_slotted s =
     fmpred (\<lambda>name i. name \<noteq> [] \<and> i < length (name_map s) \<and> name_map s ! i = name) (reverse_map s)"

text \<open>Slot 0 holds the name \<open>invalid\<close>.\<close>

definition invalid_slot :: "idmap \<Rightarrow> bool" where
  "invalid_slot s = (Invalid < length (name_map s) \<and> name_map s ! Invalid = ''invalid'')"

definition registry_inv :: "idmap \<Rightarrow> bool" where
  "registry_inv s = (slots_indexed s \<and> entries_slotted s \<and> invalid_slot s)"

text \<open>
  A call keeps to the registration discipline when its name is not empty and, for
  \<open>AddPair\<close>, the slot it names is still empty.
\<close>

fun call_ok :: "idmap \<Rightarrow> registry_call \<Rightarrow> bool" where
  "call_ok s (CallAddPair i name) = (name \<noteq> [] \<and> (i < length (name_map s) \<longrightarrow> name_map s ! i = []))"
| "call_ok s (CallGetOrCreateId name) = (name \<noteq> [])"

fun disciplined :: "idmap \<Rightarrow> registry_call list \<Rightarrow> bool" where
  "disciplined s [] = True"
| "disciplined s (c # cs) =
     (call_ok s c \<and> (case call s c of Inl e \<Rightarrow> True | Inr s' \<Rightarrow> disciplined s' cs))"

definition well_used :: "nat \<Rightarrow> registry_call list \<Rightarrow> bool" where
  "well_used n cs = (case IdNameMap n of Inl e \<Rightarrow> True | Inr s \<Rightarrow> disciplined s cs)"

section \<open>The property specification\<close>

text \<open>
  The header declares the shorthand types, the tagged item id and the members of
  \<open>PropertySpecification\<close>, and only declares the member functions: their bodies are not
  part of the sources. \<open>ShorthandItemId\<close> is the header's tag with its payload; the default
  constructor gives the invalid item.
\<close>

datatype ShorthandType = FallThrough | Replicate | Box | Recursive

datatype ShorthandItemId = InvalidItem | PropertyItem nat | ShorthandItem nat

text \<open>
  Modelled from the spec: \<open>PropertyDefinition\<close> (PropertyDefinition.h is not part of the
  sources). The data model gives it an identity, the default textual value, the
  \<open>inherited\<close> and \<open>forces_layout\<close> flags and the attached value-parser, a capability from a
  token to a typed value or failure. The typed values are the external parsers' own: the
  type variable. A definition with no parser attached yet fails on every token.
\<close>

record 'v PropertyDefinition =
  property_id :: nat
  default_value :: string
  inherited :: bool
  forces_layout :: bool
  parser :: "string \<Rightarrow> 'v option"

text \<open>
  Modelled from the spec: \<open>ShorthandDefinition\<close> (only declared in the header): identity,
  resolution type and the ordered items.
\<close>

record ShorthandDefinition =
  shorthand_id :: nat
  shorthand_type :: ShorthandType
  items :: "ShorthandItemId list"

text \<open>
  Modelled from the spec: \<open>PropertyDictionary\<close> (only declared in the header), a mapping
  from property id to the parsed value with its source file and line. The value of an
  entry is what the value-parser returned, a typed value or failure: a declaration
  writes an entry only for a typed value, whereas \<open>SetPropertyDefaults\<close> inserts the
  result of parsing the default string whatever it is.
\<close>

record 'v Property =
  parsed_value :: "'v option"
  source :: string
  source_line_number :: int

type_synonym 'v PropertyDictionary = "nat \<rightharpoonup> 'v Property"

text \<open>
  The private members of \<open>PropertySpecification\<close>, as the header lists them. The vectors of
  pointers are indexed by id, a null pointer being \<open>None\<close>; \<open>PropertyNameList\<close> (declared
  elsewhere) is a list of names in insertion order, as the spec describes it.
\<close>

record 'v PropertySpecification =
  properties :: "'v PropertyDefinition option list"
  shorthands :: "ShorthandDefinition option list"
  property_map :: idmap
  shorthand_map :: idmap
  property_names :: "string list"
  inherited_property_names :: "string list"

subsection \<open>Lookups\<close>

text \<open>
  Modelled from the spec: the body of \<open>GetProperty\<close> (by id) is absent. A read-only lookup
  with an absent result when nothing is found.
\<close>

definition GetProperty :: "'v PropertySpecification \<Rightarrow> nat \<Rightarrow> 'v PropertyDefinition option" where
  "GetProperty spec i = (if i < length (properties spec) then properties spec ! i else None)"

text \<open>
  Modelled from the spec: the body of \<open>GetProperty\<close> (by name) is absent. The lookup by
  name goes through the id registry; an unknown name has the invalid id.
\<close>

definition GetPropertyByName :: "'v PropertySpecification \<Rightarrow> string \<Rightarrow> 'v PropertyDefinition option" where
  "GetPropertyByName spec property_name = GetProperty spec (GetId (property_map spec) property_name)"

text \<open>
  Modelled from the spec: the body of \<open>GetShorthand\<close> (by id) is absent. A read-only lookup
  with an absent result when nothing is found.
\<close>

definition GetShorthand :: "'v PropertySpecification \<Rightarrow> nat \<Rightarrow> ShorthandDefinition option" where
  "GetShorthand spec i = (if i < length (shorthands spec) then shorthands spec ! i else None)"

text \<open>
  Modelled from the spec: the body of \<open>GetShorthand\<close> (by name) is absent. The lookup by
  name goes through the id registry.
\<close>

definition GetShorthandByName :: "'v PropertySpecification \<Rightarrow> string \<Rightarrow> ShorthandDefinition option" where
  "GetShorthandByName spec shorthand_name = GetShorthand spec (GetId (shorthand_map spec) shorthand_name)"

subsection \<open>Registering a shorthand\<close>

text \<open>
  Modelled from the spec: the splitter of the comma-separated list of names is absent.
  The spec says that the list is split on commas; the pieces are kept as they are.
\<close>

fun split_commas :: "string \<Rightarrow> string list" where
  "split_commas [] = [[]]"
| "split_commas (c # cs) =
     (if c = CHR '','' then [] # split_commas cs
      else (case split_commas cs of [] \<Rightarrow> [[c]] | x # xs \<Rightarrow> (c # x) # xs))"

text \<open>
  Modelled from the spec: resolving a name of the list, inside the absent body of
  \<open>RegisterShorthand\<close>: to a property, else to a shorthand registered before, else to
  nothing. The spec does not say which wins when a name is both: here the property.
\<close>

definition resolve_item :: "'v PropertySpecification \<Rightarrow> string \<Rightarrow> ShorthandItemId" where
  "resolve_item spec name =
     (case GetPropertyByName spec name of
        Some d \<Rightarrow> PropertyItem (property_id d)
      | None \<Rightarrow>
          (case GetShorthandByName spec name of
             Some sh \<Rightarrow> ShorthandItem (shorthand_id sh)
           | None \<Rightarrow> InvalidItem))"

text \<open>
  Modelled from the spec: storing the new definition under its id, inside the absent body
  of \<open>RegisterShorthand\<close>; the vector of pointers grows with null pointers when it is too
  short.
\<close>

definition store_at :: "'a option list \<Rightarrow> nat \<Rightarrow> 'a \<Rightarrow> 'a option list" where
  "store_at xs i x = (xs @ replicate (Suc i - length xs) None)[i := Some x]"

text \<open>
  Modelled from the spec: assigning the id, inside the absent body of \<open>RegisterShorthand\<close>.
  The header says of the parameter: when \<open>Invalid\<close> a new id is assigned, otherwise the
  given one; the registry offers \<open>GetOrCreateId\<close> for the first and \<open>AddPair\<close>, which can
  fail its assertion, for the second.
\<close>

definition assign_id :: "idmap \<Rightarrow> string \<Rightarrow> nat \<Rightarrow> failure + nat \<times> idmap" where
  "assign_id m name i =
     (if i = Invalid then Inr (GetOrCreateId m name)
      else (case AddPair m i name of Inl e \<Rightarrow> Inl e | Inr m' \<Rightarrow> Inr (i, m')))"

text \<open>
  Modelled from the spec: the body of \<open>RegisterShorthand\<close> is absent. The spec says: split
  the list of names on commas, resolve each name to a property or to a shorthand
  registered before, return false when a name resolves to neither, and otherwise store
  the ordered items with the given type and return true. The spec does not say when the
  id is assigned: here after the names have resolved.
\<close>

definition RegisterShorthand ::
  "'v PropertySpecification \<Rightarrow> string \<Rightarrow> string \<Rightarrow> ShorthandType \<Rightarrow> nat
     \<Rightarrow> failure + bool \<times> 'v PropertySpecification" where
  "RegisterShorthand spec shorthand_name names ty i =
     (let its = map (resolve_item spec) (split_commas names)
      in if InvalidItem \<in> set its then Inr (False, spec)
         else
           (case assign_id (shorthand_map spec) shorthand_name i of
              Inl e \<Rightarrow> Inl e
            | Inr (i', m') \<Rightarrow>
                Inr (True,
                  spec\<lparr>shorthand_map := m',
                       shorthands := store_at (shorthands spec) i'
                         \<lparr>shorthand_id = i', shorthand_type = ty, items = its\<rparr>\<rparr>)))"

subsection \<open>Tokens\<close>

text \<open>
  Modelled from the spec: the whitespace test of the tokenizer is absent. Space, tab, line
  feed and carriage return.
\<close>

definition IsWhitespace :: "char \<Rightarrow> bool" where
  "IsWhitespace c = (c = CHR '' '' \<or> c = CHR 0x09 \<or> c = CHR 0x0A \<or> c = CHR 0x0D)"

text \<open>
  Modelled from the spec: what separates tokens, inside the absent body of
  \<open>ParsePropertyValues\<close>: whitespace for shorthands, and commas when the caller asks for
  it. The header's flag \<open>split_values\<close> is read as: true splits on whitespace, false on
  commas.
\<close>

definition is_separator :: "bool \<Rightarrow> char \<Rightarrow> bool" where
  "is_separator split_values c = (if split_values then IsWhitespace c else c = CHR '','')"

text \<open>
  Modelled from the spec: ending a token, inside the absent body of
  \<open>ParsePropertyValues\<close>; empty tokens are dropped.
\<close>

definition flush :: "string \<Rightarrow> string list" where
  "flush tok = (if tok = [] then [] else [tok])"

text \<open>
  Modelled from the spec: the scan inside the absent body of \<open>ParsePropertyValues\<close>. Its
  arguments are the token read so far, the depth of open parentheses, whether a quoted
  string is open, and the rest of the input. A quoted string and a parenthesised span
  are never broken. The spec leaves the quote characters open: here the double quote,
  kept in the token.
\<close>

fun scan_values :: "bool \<Rightarrow> string \<Rightarrow> nat \<Rightarrow> bool \<Rightarrow> string \<Rightarrow> string list" where
  "scan_values sv tok depth quoted [] = flush tok"
| "scan_values sv tok depth quoted (c # cs) =
     (if quoted then scan_values sv (tok @ [c]) depth (c \<noteq> CHR 0x22) cs
      else if c = CHR 0x22 then scan_values sv (tok @ [c]) depth True cs
      else if c = CHR ''('' then scan_values sv (tok @ [c]) (Suc depth) False cs
      else if c = CHR '')'' then scan_values sv (tok @ [c]) (depth - 1) False cs
      else if depth = 0 \<and> is_separator sv c then flush tok @ scan_values sv [] 0 False cs
      else scan_values sv (tok @ [c]) depth False cs)"

text \<open>
  Modelled from the spec: the body of \<open>ParsePropertyValues\<close> is absent. The value string
  is split into its tokens, and a result with no token is a failure.
\<close>

definition ParsePropertyValues :: "string \<Rightarrow> bool \<Rightarrow> string list option" where
  "ParsePropertyValues values split_values =
     (case scan_values split_values [] 0 False values of
        [] \<Rightarrow> None
      | t # ts \<Rightarrow> Some (t # ts))"

subsection \<open>Parsing declarations\<close>

text \<open>
  Modelled from the spec: the body of \<open>ParsePropertyDeclaration\<close> (by id) is absent. The
  spec says: look the definition up, run its value-parser on the whole value string, and
  on success write the value with the source file and line under the id; a failure
  writes nothing. The result is the success flag and the dictionary.
\<close>

definition ParsePropertyDeclaration ::
  "'v PropertySpecification \<Rightarrow> 'v PropertyDictionary \<Rightarrow> nat \<Rightarrow> string \<Rightarrow> string \<Rightarrow> int
     \<Rightarrow> bool \<times> 'v PropertyDictionary" where
  "ParsePropertyDeclaration spec dictionary pid property_value source_file line =
     (case GetProperty spec pid of
        None \<Rightarrow> (False, dictionary)
      | Some d \<Rightarrow>
          (case parser d property_value of
             None \<Rightarrow> (False, dictionary)
           | Some v \<Rightarrow>
               (True, dictionary(pid \<mapsto>
                  \<lparr>parsed_value = Some v, source = source_file, source_line_number = line\<rparr>))))"

text \<open>
  Modelled from the spec: resolving one shorthand item against the token assigned to it.
  A property runs its own parser; a nested shorthand runs the shorthand algorithm
  (\<open>nested\<close>) on the token; the invalid item fails. \<open>None\<close> is the nested call running out
  of depth.
\<close>

definition parse_item ::
  "('v PropertyDictionary \<Rightarrow> nat \<Rightarrow> string \<Rightarrow> (bool \<times> 'v PropertyDictionary) option)
     \<Rightarrow> 'v PropertySpecification \<Rightarrow> string \<Rightarrow> int
     \<Rightarrow> 'v PropertyDictionary \<Rightarrow> ShorthandItemId \<Rightarrow> string
     \<Rightarrow> (bool \<times> 'v PropertyDictionary) option" where
  "parse_item nested spec source_file line dictionary item token =
     (case item of
        InvalidItem \<Rightarrow> Some (False, dictionary)
      | PropertyItem pid \<Rightarrow>
          Some (ParsePropertyDeclaration spec dictionary pid token source_file line)
      | ShorthandItem sid \<Rightarrow> nested dictionary sid token)"

text \<open>
  Modelled from the spec, \<open>FallThrough\<close>: items and tokens are walked in lockstep; a token
  that fails for the current item is tried on the next item; when the tokens are used up
  the remaining items are left alone. The spec does not say what the call returns when a
  token has fallen through every item: here that is a failure.
\<close>

fun fall_through ::
  "('d \<Rightarrow> ShorthandItemId \<Rightarrow> string \<Rightarrow> (bool \<times> 'd) option)
     \<Rightarrow> 'd \<Rightarrow> ShorthandItemId list \<Rightarrow> string list \<Rightarrow> (bool \<times> 'd) option" where
  "fall_through p d its [] = Some (True, d)"
| "fall_through p d [] (t # ts) = Some (False, d)"
| "fall_through p d (it # its) (t # ts) =
     (case p d it t of
        None \<Rightarrow> None
      | Some (True, d') \<Rightarrow> fall_through p d' its ts
      | Some (False, d') \<Rightarrow> fall_through p d' its (t # ts))"

text \<open>
  Modelled from the spec, \<open>Replicate\<close>, the tokens being used up: the last successfully
  parsed value is written to every remaining item. Where there is no such value to copy
  (the last item parsed or the remaining item is a nested shorthand), the remaining item
  is resolved against the last token.
\<close>

fun replicate_last ::
  "('v PropertyDictionary \<Rightarrow> ShorthandItemId \<Rightarrow> string \<Rightarrow> (bool \<times> 'v PropertyDictionary) option)
     \<Rightarrow> 'v PropertyDictionary \<Rightarrow> 'v Property option \<Rightarrow> string \<Rightarrow> ShorthandItemId list
     \<Rightarrow> (bool \<times> 'v PropertyDictionary) option" where
  "replicate_last p d v t [] = Some (True, d)"
| "replicate_last p d (Some pv) t (PropertyItem q # its) = replicate_last p (d(q \<mapsto> pv)) (Some pv) t its"
| "replicate_last p d v t (it # its) =
     (case p d it t of
        None \<Rightarrow> None
      | Some (True, d') \<Rightarrow> replicate_last p d' v t its
      | Some (False, d') \<Rightarrow> Some (False, d'))"

text \<open>
  Modelled from the spec, \<open>Replicate\<close>: the value of the last successful parse is the
  dictionary entry it wrote; a nested shorthand leaves no single value.
\<close>

definition last_value :: "'v PropertyDictionary \<Rightarrow> ShorthandItemId \<Rightarrow> 'v Property option" where
  "last_value d it = (case it of PropertyItem pid \<Rightarrow> d pid | _ \<Rightarrow> None)"

text \<open>
  Modelled from the spec, \<open>Replicate\<close>: the walk, on a working copy of the dictionary.
  Items and tokens are walked one to one and a failed parse stops the walk; when the
  tokens end before the items, the last successfully parsed value goes to every remaining
  item. The design notes of the spec settle two cases: more tokens than items is an
  error, and so is no successful parse at all.
\<close>

fun replicate_walk ::
  "('v PropertyDictionary \<Rightarrow> ShorthandItemId \<Rightarrow> string \<Rightarrow> (bool \<times> 'v PropertyDictionary) option)
     \<Rightarrow> 'v PropertyDictionary \<Rightarrow> ShorthandItemId list \<Rightarrow> string list
     \<Rightarrow> (bool \<times> 'v PropertyDictionary) option" where
  "replicate_walk p d [] [] = Some (True, d)"
| "replicate_walk p d [] (t # ts) = Some (False, d)"
| "replicate_walk p d (it # its) [] = Some (False, d)"
| "replicate_walk p d (it # its) (t # ts) =
     (case p d it t of
        None \<Rightarrow> None
      | Some (False, d') \<Rightarrow> Some (False, d')
      | Some (True, d') \<Rightarrow>
          (if ts = [] then replicate_last p d' (last_value d' it) t its
           else replicate_walk p d' its ts))"

text \<open>
  Modelled from the spec, \<open>Replicate\<close>: a failed parse aborts the whole declaration as a
  failure, with no partial writes retained as valid. The writes of a walk that failed are
  dropped: the dictionary is then the one the call was given.
\<close>

definition replicate_items ::
  "('v PropertyDictionary \<Rightarrow> ShorthandItemId \<Rightarrow> string \<Rightarrow> (bool \<times> 'v PropertyDictionary) option)
     \<Rightarrow> 'v PropertyDictionary \<Rightarrow> ShorthandItemId list \<Rightarrow> string list
     \<Rightarrow> (bool \<times> 'v PropertyDictionary) option" where
  "replicate_items p d its tokens =
     (case replicate_walk p d its tokens of
        None \<Rightarrow> None
      | Some (True, d') \<Rightarrow> Some (True, d')
      | Some (False, d') \<Rightarrow> Some (False, d))"

text \<open>
  Modelled from the spec, \<open>Box\<close>: one token goes to all four sides, two tokens to
  (top and bottom, left and right), four tokens to top, right, bottom, left in that
  order, the items being listed in that order; any other number of tokens is a failure.
\<close>

fun box_tokens :: "string list \<Rightarrow> string list option" where
  "box_tokens [a] = Some [a, a, a, a]"
| "box_tokens [a, b] = Some [a, b, a, b]"
| "box_tokens [a, b, c, d] = Some [a, b, c, d]"
| "box_tokens ts = None"

text \<open>
  Modelled from the spec, \<open>Box\<close>: each item is matched against its token with its own
  parser and the first failure aborts the declaration.
\<close>

fun parse_each ::
  "('d \<Rightarrow> ShorthandItemId \<Rightarrow> string \<Rightarrow> (bool \<times> 'd) option)
     \<Rightarrow> 'd \<Rightarrow> (ShorthandItemId \<times> string) list \<Rightarrow> (bool \<times> 'd) option" where
  "parse_each p d [] = Some (True, d)"
| "parse_each p d ((it, t) # rest) =
     (case p d it t of
        None \<Rightarrow> None
      | Some (True, d') \<Rightarrow> parse_each p d' rest
      | Some (False, d') \<Rightarrow> Some (False, d'))"

text \<open>
  Modelled from the spec, \<open>Box\<close>: the walk of a box shorthand, over at most four items.
\<close>

definition box_items ::
  "('d \<Rightarrow> ShorthandItemId \<Rightarrow> string \<Rightarrow> (bool \<times> 'd) option)
     \<Rightarrow> 'd \<Rightarrow> ShorthandItemId list \<Rightarrow> string list \<Rightarrow> (bool \<times> 'd) option" where
  "box_items p d its tokens =
     (case box_tokens tokens of
        None \<Rightarrow> Some (False, d)
      | Some sides \<Rightarrow> parse_each p d (zip its sides))"

text \<open>
  Modelled from the spec, \<open>Recursive\<close>: every item is resolved against the whole value
  string. The spec does not say what the call returns: here success means that every
  item succeeded.
\<close>

fun resolve_each ::
  "('d \<Rightarrow> ShorthandItemId \<Rightarrow> string \<Rightarrow> (bool \<times> 'd) option)
     \<Rightarrow> 'd \<Rightarrow> ShorthandItemId list \<Rightarrow> string \<Rightarrow> (bool \<times> 'd) option" where
  "resolve_each p d [] v = Some (True, d)"
| "resolve_each p d (it # its) v =
     (case p d it v of
        None \<Rightarrow> None
      | Some (ok, d') \<Rightarrow>
          (case resolve_each p d' its v of
             None \<Rightarrow> None
           | Some (ok', d'') \<Rightarrow> Some (ok \<and> ok', d'')))"

text \<open>
  Modelled from the spec: the body of \<open>ParseShorthandDeclaration\<close> is absent. The value is
  split on whitespace, the shorthand is looked up, and the walk of its type runs. A
  nested shorthand calls the algorithm again; the spec argues that the references are
  acyclic because a shorthand names only shorthands registered before it, which the
  table's type does not enforce, so the first argument bounds the depth of nesting and
  \<open>None\<close> is a call that ran out of depth.
\<close>

primrec ParseShorthandDeclaration ::
  "nat \<Rightarrow> 'v PropertySpecification \<Rightarrow> 'v PropertyDictionary \<Rightarrow> nat \<Rightarrow> string \<Rightarrow> string \<Rightarrow> int
     \<Rightarrow> (bool \<times> 'v PropertyDictionary) option" where
  "ParseShorthandDeclaration 0 spec dictionary sid property_value source_file line = None"
| "ParseShorthandDeclaration (Suc depth) spec dictionary sid property_value source_file line =
     (case ParsePropertyValues property_value True of
        None \<Rightarrow> Some (False, dictionary)
      | Some tokens \<Rightarrow>
          (case GetShorthand spec sid of
             None \<Rightarrow> Some (False, dictionary)
           | Some sh \<Rightarrow>
               (let p = parse_item
                          (\<lambda>d s v. ParseShorthandDeclaration depth spec d s v source_file line)
                          spec source_file line
                in case shorthand_type sh of
                     FallThrough \<Rightarrow> fall_through p dictionary (items sh) tokens
                   | Replicate \<Rightarrow> replicate_items p dictionary (items sh) tokens
                   | Box \<Rightarrow> box_items p dictionary (items sh) tokens
                   | Recursive \<Rightarrow> resolve_each p dictionary (items sh) property_value)))"

subsection \<open>Defaults\<close>

text \<open>
  Modelled from the spec: the entry of a default, inside the absent body of
  \<open>SetPropertyDefaults\<close>: the result of parsing the stored default string, with no source
  file and line 0.
\<close>

definition default_entry :: "'v PropertyDefinition \<Rightarrow> 'v Property" where
  "default_entry def =
     \<lparr>parsed_value = parser def (default_value def), source = [], source_line_number = 0\<rparr>"

text \<open>
  Modelled from the spec: one step of the absent body of \<open>SetPropertyDefaults\<close>. A
  registered property that is no key of the dictionary has its stored default string
  parsed and the result inserted; a property that is a key is left alone. The spec
  guarantees an entry for every registered property after the call, so the result is
  inserted whatever the parser made of the string.
\<close>

definition set_default :: "'v PropertyDictionary \<Rightarrow> 'v PropertyDefinition option \<Rightarrow> 'v PropertyDictionary" where
  "set_default d property =
     (case property of
        None \<Rightarrow> d
      | Some def \<Rightarrow>
          (if d (property_id def) = None
           then d(property_id def \<mapsto> default_entry def)
           else d))"

text \<open>
  Modelled from the spec: the body of \<open>SetPropertyDefaults\<close> is absent. Every entry of the
  table of properties is visited once.
\<close>

definition SetPropertyDefaults :: "'v PropertySpecification \<Rightarrow> 'v PropertyDictionary \<Rightarrow> 'v PropertyDictionary" where
  "SetPropertyDefaults spec dictionary = foldl set_default dictionary (properties spec)"

text \<open>
  Modelled from the spec: the registered properties are the definitions the table holds.
\<close>

definition registered :: "'v PropertySpecification \<Rightarrow> 'v PropertyDefinition list" where
  "registered spec = List.map_filter (\<lambda>x. x) (properties spec)"

subsection \<open>Vocabulary of the claims about declarations\<close>

text \<open>What the parser of a property makes of a token; \<open>None\<close> when the id has no definition.\<close>

definition parsed :: "'v PropertySpecification \<Rightarrow> nat \<Rightarrow> string \<Rightarrow> 'v option" where
  "parsed spec pid token = (case GetProperty spec pid of None \<Rightarrow> None | Some d \<Rightarrow> parser d token)"

text \<open>The dictionary entry of a typed value that a declaration parsed.\<close>

definition entry :: "string \<Rightarrow> int \<Rightarrow> 'v \<Rightarrow> 'v Property" where
  "entry source_file line v =
     \<lparr>parsed_value = Some v, source = source_file, source_line_number = line\<rparr>"

text \<open>Writing entries into a dictionary, one after the other.\<close>

fun write_all :: "'v PropertyDictionary \<Rightarrow> (nat \<times> 'v Property) list \<Rightarrow> 'v PropertyDictionary" where
  "write_all d [] = d"
| "write_all d ((k, e) # kes) = write_all (d(k \<mapsto> e)) kes"

text \<open>
  The outcome of a box declaration whose sides \<open>ptop\<close>, \<open>pright\<close>, \<open>pbottom\<close>, \<open>pleft\<close> are matched
  against the tokens \<open>a\<close>, \<open>b\<close>, \<open>c\<close>, \<open>e\<close>: when every side parses its token the call succeeds
  and each side holds its value; otherwise the call reports failure.
\<close>

definition box_outcome ::
  "'v PropertySpecification \<Rightarrow> string \<Rightarrow> int \<Rightarrow> 'v PropertyDictionary
     \<Rightarrow> nat \<Rightarrow> nat \<Rightarrow> nat \<Rightarrow> nat \<Rightarrow> string \<Rightarrow> string \<Rightarrow> string \<Rightarrow> string
     \<Rightarrow> (bool \<times> 'v PropertyDictionary) option \<Rightarrow> bool" where
  "box_outcome spec source_file line d ptop pright pbottom pleft a b c e result =
     (case (parsed spec ptop a, parsed spec pright b, parsed spec pbottom c, parsed spec pleft e) of
        (Some v1, Some v2, Some v3, Some v4) \<Rightarrow>
          result = Some (True, write_all d
            [(ptop, entry source_file line v1), (pright, entry source_file line v2),
             (pbottom, entry source_file line v3), (pleft, entry source_file line v4)])
      | _ \<Rightarrow> map_option fst result = Some False)"

text \<open>
  The matches of a fall-through walk over property items: an item takes the current
  token when its parser accepts it, and otherwise the token moves on to the next item.
\<close>

fun fall_through_matches ::
  "'v PropertySpecification \<Rightarrow> nat list \<Rightarrow> string list \<Rightarrow> (nat \<times> 'v) list" where
  "fall_through_matches spec ps [] = []"
| "fall_through_matches spec [] (t # ts) = []"
| "fall_through_matches spec (p # ps) (t # ts) =
     (case parsed spec p t of
        Some v \<Rightarrow> (p, v) # fall_through_matches spec ps ts
      | None \<Rightarrow> fall_through_matches spec ps (t # ts))"

text \<open>Example value parsers for the worked examples: a length in px, and a keyword list.\<close>

definition px_parser :: "string \<Rightarrow> string option" where
  "px_parser t = (if 2 < length t \<and> drop (length t - 2) t = ''px'' then Some t else None)"

definition keyword_parser :: "string list \<Rightarrow> string \<Rightarrow> string option" where
  "keyword_parser keywords t = (if t \<in> set keywords then Some t else None)"

definition example_property :: "nat \<Rightarrow> string \<Rightarrow> (string \<Rightarrow> string option) \<Rightarrow> string PropertyDefinition" where
  "example_property i dflt p =
     \<lparr>property_id = i, default_value = dflt, inherited = False, forces_layout = False, parser = p\<rparr>"

text \<open>A specification with the given tables and registries.\<close>

definition example_spec ::
  "'v PropertyDefinition option list \<Rightarrow> ShorthandDefinition option list \<Rightarrow> idmap \<Rightarrow> idmap
     \<Rightarrow> 'v PropertySpecification" where
  "example_spec ps shs pm sm =
     \<lparr>properties = ps, shorthands = shs, property_map = pm, shorthand_map = sm,
      property_names = [], inherited_property_names = []\<rparr>"

text \<open>
  The examples of the specification: the box shorthand \<open>margin\<close> over the four margin
  properties, the replicating shorthand \<open>border-color\<close> over four colours, the
  fall-through shorthand \<open>font\<close> over \<open>font-style\<close> and \<open>font-weight\<close>, and the single
  property \<open>color\<close> with the default \<open>black\<close>.
\<close>

definition fresh_names :: idmap where
  "fresh_names = \<lparr>name_map = [''invalid''], reverse_map = fmupd ''invalid'' 0 fmempty\<rparr>"

definition one_name :: "string \<Rightarrow> idmap" where
  "one_name name = snd (GetOrCreateId fresh_names name)"

definition margin_properties :: "string PropertyDefinition option list" where
  "margin_properties =
     [None, Some (example_property 1 ''0px'' px_parser), Some (example_property 2 ''0px'' px_parser),
      Some (example_property 3 ''0px'' px_parser), Some (example_property 4 ''0px'' px_parser)]"

definition margin_names :: idmap where
  "margin_names =
     \<lparr>name_map = [''invalid'', ''margin-top'', ''margin-right'', ''margin-bottom'', ''margin-left''],
      reverse_map = fmupd ''margin-left'' 4 (fmupd ''margin-bottom'' 3 (fmupd ''margin-right'' 2
        (fmupd ''margin-top'' 1 (fmupd ''invalid'' 0 fmempty))))\<rparr>"

definition margin_unregistered :: "string PropertySpecification" where
  "margin_unregistered = example_spec margin_properties [None] margin_names fresh_names"

definition margin_spec :: "string PropertySpecification" where
  "margin_spec = example_spec margin_properties
     [None, Some \<lparr>shorthand_id = 1, shorthand_type = Box,
        items = [PropertyItem 1, PropertyItem 2, PropertyItem 3, PropertyItem 4]\<rparr>]
     margin_names (one_name ''margin'')"

definition colours :: "string list" where
  "colours = [''red'', ''green'', ''blue'']"

definition border_color_spec :: "string PropertySpecification" where
  "border_color_spec = example_spec
     [None, Some (example_property 1 ''red'' (keyword_parser colours)),
      Some (example_property 2 ''red'' (keyword_parser colours)),
      Some (example_property 3 ''red'' (keyword_parser colours)),
      Some (example_property 4 ''red'' (keyword_parser colours))]
     [None, Some \<lparr>shorthand_id = 1, shorthand_type = Replicate,
        items = map PropertyItem [1, 2, 3, 4]\<rparr>]
     fresh_names (one_name ''border-color'')"

definition font_spec :: "string PropertySpecification" where
  "font_spec = example_spec
     [None, Some (example_property 1 ''normal'' (keyword_parser [''normal'', ''italic''])),
      Some (example_property 2 ''normal'' (keyword_parser [''normal'', ''bold'']))]
     [None, Some \<lparr>shorthand_id = 1, shorthand_type = FallThrough,
        items = map PropertyItem [1, 2]\<rparr>]
     fresh_names (one_name ''font'')"

definition color_spec :: "string PropertySpecification" where
  "color_spec = example_spec
     [None, Some (example_property 1 ''black'' (keyword_parser [''black'', ''white'']))]
     [None] (one_name ''color'') fresh_names"

text \<open>The same property with a default that its parser rejects.\<close>

definition purple_spec :: "string PropertySpecification" where
  "purple_spec = example_spec
     [None, Some (example_property 1 ''purple'' (keyword_parser [''black'', ''white'']))]
     [None] (one_name ''color'') fresh_names"

section \<open>Properties of the registry\<close>

lemma slots_indexed_iff:
  "slots_indexed s \<longleftrightarrow>
     (\<forall>i < length (name_map s). name_map s ! i \<noteq> [] \<longrightarrow>
        fmlookup (reverse_map s) (name_map s ! i) = Some i)"
  by (auto simp: slots_indexed_def in_set_enumerate_eq)

lemma entries_in_range_iff:
  "entries_in_range s \<longleftrightarrow> (\<forall>name i. fmlookup (reverse_map s) name = Some i \<longrightarrow> i < length (name_map s))"
  by (simp add: entries_in_range_def fmpred_iff)

lemma entries_slotted_iff:
  "entries_slotted s \<longleftrightarrow>
     (\<forall>name i. fmlookup (reverse_map s) name = Some i \<longrightarrow>
        name \<noteq> [] \<and> i < length (name_map s) \<and> name_map s ! i = name)"
  by (simp add: entries_slotted_def fmpred_iff)

lemma AddPair_Inr_iff:
  "AddPair s i name = Inr s' \<longleftrightarrow>
     i < length (name_map s) \<and> fmlookup (reverse_map s) name = None \<and>
     s' = \<lparr>name_map = (name_map s)[i := name], reverse_map = fmupd name i (reverse_map s)\<rparr>"
  by (auto simp: AddPair_def emplace_def Let_def split: option.splits)

lemma GetOrCreateId_new:
  "fmlookup (reverse_map s) name = None \<Longrightarrow>
     GetOrCreateId s name =
       (length (name_map s), \<lparr>name_map = name_map s @ [name], reverse_map = fmupd name (length (name_map s)) (reverse_map s)\<rparr>)"
  by (simp add: GetOrCreateId_def emplace_def Let_def)

lemma GetOrCreateId_old:
  "fmlookup (reverse_map s) name = Some i \<Longrightarrow> GetOrCreateId s name = (i, s)"
  by (simp add: GetOrCreateId_def emplace_def)

lemma slots_indexed_AddPair:
  assumes "slots_indexed s" "AddPair s i name = Inr s'"
  shows "slots_indexed s'"
  using assms unfolding slots_indexed_iff AddPair_Inr_iff
  by (auto simp: nth_list_update)

lemma slots_indexed_GetOrCreateId:
  assumes "slots_indexed s"
  shows "slots_indexed (snd (GetOrCreateId s name))"
proof (cases "fmlookup (reverse_map s) name")
  case None
  with assms show ?thesis
    unfolding slots_indexed_iff by (auto simp: GetOrCreateId_new nth_append)
next
  case (Some i)
  with assms show ?thesis by (simp add: GetOrCreateId_old)
qed

lemma entries_in_range_AddPair:
  assumes "entries_in_range s" "AddPair s i name = Inr s'"
  shows "entries_in_range s'"
  using assms unfolding entries_in_range_iff AddPair_Inr_iff
  by (auto split: if_splits)

lemma entries_in_range_GetOrCreateId:
  assumes "entries_in_range s"
  shows "entries_in_range (snd (GetOrCreateId s name))"
proof (cases "fmlookup (reverse_map s) name")
  case None
  with assms show ?thesis
    unfolding entries_in_range_iff by (auto simp: GetOrCreateId_new less_Suc_eq split: if_splits)
next
  case (Some i)
  with assms show ?thesis by (simp add: GetOrCreateId_old)
qed

lemma registry_inv_AddPair:
  assumes "registry_inv s" "call_ok s (CallAddPair i name)" "AddPair s i name = Inr s'"
  shows "registry_inv s'"
proof -
  from assms(3) have i: "i < length (name_map s)" and new: "fmlookup (reverse_map s) name = None"
    and s': "s' = \<lparr>name_map = (name_map s)[i := name], reverse_map = fmupd name i (reverse_map s)\<rparr>"
    by (simp_all add: AddPair_Inr_iff)
  from assms(2) i have name: "name \<noteq> []" and empty: "name_map s ! i = []" by simp_all
  have "slots_indexed s'" using assms(1,3) by (auto simp: registry_inv_def intro: slots_indexed_AddPair)
  moreover have "entries_slotted s'"
    using assms(1) i new name empty unfolding registry_inv_def entries_slotted_iff s'
    by (auto simp: nth_list_update split: if_splits)
  moreover have "invalid_slot s'"
    using assms(1) i empty unfolding registry_inv_def invalid_slot_def s'
    by (auto simp: nth_list_update)
  ultimately show ?thesis by (simp add: registry_inv_def)
qed

lemma registry_inv_GetOrCreateId:
  assumes "registry_inv s" "name \<noteq> []"
  shows "registry_inv (snd (GetOrCreateId s name))"
proof (cases "fmlookup (reverse_map s) name")
  case None
  have "slots_indexed (snd (GetOrCreateId s name))"
    using assms(1) by (auto simp: registry_inv_def intro: slots_indexed_GetOrCreateId)
  moreover have "entries_slotted (snd (GetOrCreateId s name))"
    using assms None unfolding registry_inv_def entries_slotted_iff
    by (auto simp: GetOrCreateId_new nth_append less_Suc_eq split: if_splits)
  moreover have "invalid_slot (snd (GetOrCreateId s name))"
    using assms(1) None unfolding registry_inv_def invalid_slot_def
    by (auto simp: GetOrCreateId_new nth_append)
  ultimately show ?thesis by (simp add: registry_inv_def)
next
  case (Some i)
  with assms show ?thesis by (simp add: GetOrCreateId_old)
qed

lemma IdNameMap_Inr_iff:
  "IdNameMap n = Inr s \<longleftrightarrow>
     0 < n \<and> s = \<lparr>name_map = (replicate n [])[0 := ''invalid''], reverse_map = fmupd ''invalid'' 0 fmempty\<rparr>"
  by (auto simp: IdNameMap_def AddPair_Inr_iff Invalid_def)

lemma registry_inv_IdNameMap:
  assumes "IdNameMap n = Inr s"
  shows "registry_inv s"
  using assms unfolding IdNameMap_Inr_iff registry_inv_def slots_indexed_iff entries_slotted_iff invalid_slot_def
  by (auto simp: nth_list_update Invalid_def split: if_splits)

lemma registry_inv_calls:
  "registry_inv s \<Longrightarrow> disciplined s cs \<Longrightarrow> calls s cs = Inr s' \<Longrightarrow> registry_inv s'"
proof (induction cs arbitrary: s)
  case Nil
  then show ?case by simp
next
  case (Cons c cs)
  show ?case
  proof (cases "call s c")
    case (Inl e)
    with Cons.prems show ?thesis by simp
  next
    case (Inr t)
    have "registry_inv t"
    proof (cases c)
      case (CallAddPair i name)
      with Inr Cons.prems show ?thesis by (auto intro: registry_inv_AddPair)
    next
      case (CallGetOrCreateId name)
      with Inr Cons.prems registry_inv_GetOrCreateId [of s name] show ?thesis by auto
    qed
    with Inr Cons.prems Cons.IH [of t] show ?thesis by simp
  qed
qed

lemma weak_calls:
  "slots_indexed s \<Longrightarrow> entries_in_range s \<Longrightarrow> calls s cs = Inr s' \<Longrightarrow> slots_indexed s' \<and> entries_in_range s'"
proof (induction cs arbitrary: s)
  case Nil
  then show ?case by simp
next
  case (Cons c cs)
  show ?case
  proof (cases "call s c")
    case (Inl e)
    with Cons.prems show ?thesis by simp
  next
    case (Inr t)
    have "slots_indexed t \<and> entries_in_range t"
    proof (cases c)
      case (CallAddPair i name)
      with Inr Cons.prems show ?thesis
        by (auto intro: slots_indexed_AddPair entries_in_range_AddPair)
    next
      case (CallGetOrCreateId name)
      with Inr Cons.prems slots_indexed_GetOrCreateId [of s name] entries_in_range_GetOrCreateId [of s name]
      show ?thesis by auto
    qed
    with Inr Cons.prems Cons.IH [of t] show ?thesis by simp
  qed
qed

lemma length_calls:
  "calls s cs = Inr s' \<Longrightarrow> length (name_map s) \<le> length (name_map s')"
proof (induction cs arbitrary: s)
  case Nil
  then show ?case by simp
next
  case (Cons c cs)
  show ?case
  proof (cases "call s c")
    case (Inl e)
    with Cons.prems show ?thesis by simp
  next
    case (Inr t)
    have "length (name_map s) \<le> length (name_map t)"
    proof (cases c)
      case (CallAddPair i name)
      with Inr show ?thesis by (auto simp: AddPair_Inr_iff)
    next
      case (CallGetOrCreateId name)
      with Inr show ?thesis by (cases "fmlookup (reverse_map s) name") (auto simp: GetOrCreateId_new GetOrCreateId_old)
    qed
    with Inr Cons.prems Cons.IH [of t] show ?thesis by simp
  qed
qed

lemma reached_nonempty:
  assumes "reached n cs = Inr s"
  shows "Invalid < length (name_map s)"
proof -
  from assms obtain s0 where s0: "IdNameMap n = Inr s0" and run: "calls s0 cs = Inr s"
    by (auto simp: reached_def split: sum.splits)
  from s0 have "0 < length (name_map s0)" by (auto simp: IdNameMap_Inr_iff)
  moreover have "length (name_map s0) \<le> length (name_map s)" using run by (rule length_calls)
  ultimately show ?thesis unfolding Invalid_def by linarith
qed

lemma reached_weak:
  assumes "reached n cs = Inr s"
  shows "slots_indexed s" and "entries_in_range s"
proof -
  from assms obtain s0 where s0: "IdNameMap n = Inr s0" and run: "calls s0 cs = Inr s"
    by (auto simp: reached_def split: sum.splits)
  have "registry_inv s0" using s0 by (rule registry_inv_IdNameMap)
  then have "slots_indexed s0" "entries_in_range s0"
    by (auto simp: registry_inv_def entries_slotted_iff entries_in_range_iff)
  with run have "slots_indexed s \<and> entries_in_range s" by (rule weak_calls[rotated 2])
  then show "slots_indexed s" and "entries_in_range s" by simp_all
qed

lemma reached_well_used:
  assumes "reached n cs = Inr s" "well_used n cs"
  shows "registry_inv s"
proof -
  from assms obtain s0 where s0: "IdNameMap n = Inr s0" and run: "calls s0 cs = Inr s"
    by (auto simp: reached_def split: sum.splits)
  have "registry_inv s0" using s0 by (rule registry_inv_IdNameMap)
  with assms(2) s0 run show ?thesis by (auto simp: well_used_def intro: registry_inv_calls)
qed

lemma roundtrip_slot:
  assumes "slots_indexed s" "x \<in> set (name_map s)" "x \<noteq> []"
  shows "GetName s (GetId s x) = Some x"
proof -
  from assms(2) obtain i where i: "i < length (name_map s)" "name_map s ! i = x"
    by (auto simp: in_set_conv_nth)
  with assms(1,3) have "fmlookup (reverse_map s) x = Some i" by (auto simp: slots_indexed_iff)
  with i show ?thesis by (simp add: GetId_def GetName_def)
qed

lemma roundtrip_entry:
  assumes "entries_slotted s" "x |\<in>| fmdom (reverse_map s)"
  shows "GetName s (GetId s x) = Some x"
proof -
  from assms(2) obtain i where "fmlookup (reverse_map s) x = Some i" by (auto simp: fmlookup_dom_iff)
  with assms(1) show ?thesis by (auto simp: entries_slotted_iff GetId_def GetName_def)
qed

section \<open>The claims about the registry\<close>

text \<open>
  Claim C4. \<open>GetOrCreateId\<close> is idempotent: in every registry state and for every name, a
  second call with the same name returns the id of the first call and changes nothing;
  the first call adds one entry to the reverse map and one slot to the name sequence when
  the name is new, and none when it is already a key; \<open>GetId\<close> then answers that id.
\<close>

theorem GetOrCreateId_idempotent:
  "fst (GetOrCreateId (snd (GetOrCreateId s name)) name) = fst (GetOrCreateId s name)
   \<and> snd (GetOrCreateId (snd (GetOrCreateId s name)) name) = snd (GetOrCreateId s name)
   \<and> reverse_size (snd (GetOrCreateId s name)) =
       reverse_size s + (if name |\<in>| fmdom (reverse_map s) then 0 else 1)
   \<and> length (name_map (snd (GetOrCreateId s name))) =
       length (name_map s) + (if name |\<in>| fmdom (reverse_map s) then 0 else 1)
   \<and> GetId (snd (GetOrCreateId s name)) name = fst (GetOrCreateId s name)"
  by (auto simp: GetOrCreateId_def emplace_def reverse_size_def GetId_def Let_def
      fcard_finsert_disjoint fmlookup_dom_iff split: option.splits)

theorem GetOrCreateId_idempotent_witness:
  "fst (GetOrCreateId \<lparr>name_map = [''invalid''], reverse_map = fmupd ''invalid'' 0 fmempty\<rparr> ''margin'') = 1
   \<and> fst (GetOrCreateId (snd (GetOrCreateId
         \<lparr>name_map = [''invalid''], reverse_map = fmupd ''invalid'' 0 fmempty\<rparr> ''margin'')) ''margin'') = 1
   \<and> length (name_map (snd (GetOrCreateId (snd (GetOrCreateId
         \<lparr>name_map = [''invalid''], reverse_map = fmupd ''invalid'' 0 fmempty\<rparr> ''margin'')) ''margin''))) = 2"
proof -
  let ?s = "\<lparr>name_map = [''invalid''], reverse_map = fmupd ''invalid'' 0 fmempty\<rparr>"
  have first: "GetOrCreateId ?s ''margin'' =
      (1, \<lparr>name_map = [''invalid'', ''margin''],
           reverse_map = fmupd ''margin'' 1 (fmupd ''invalid'' 0 fmempty)\<rparr>)"
    by (simp add: GetOrCreateId_def emplace_def)
  from GetOrCreateId_idempotent [of ?s "''margin''"] first show ?thesis by simp
qed

text \<open>
  Claim C5, as amended. In every state reached from a constructed registry by calls that
  passed their assertions: \<open>GetId\<close> of a name that is no key of the reverse map is the
  invalid id; \<open>GetName\<close> always returns a name, and for an id out of range the name held by
  slot 0; \<open>GetName (GetId x) = x\<close> for every non-empty name \<open>x\<close> that a slot holds. When the
  calls also kept to the registration discipline, slot 0 holds \<open>invalid\<close> and
  \<open>GetName (GetId x) = x\<close> for every key \<open>x\<close> of the reverse map.
\<close>

theorem lookups_reached:
  assumes "reached n cs = Inr s"
  shows "(name |\<notin>| fmdom (reverse_map s) \<longrightarrow> GetId s name = Invalid)
       \<and> (\<exists>x. GetName s i = Some x)
       \<and> (\<not> i < length (name_map s) \<longrightarrow> GetName s i = GetName s Invalid)
       \<and> (\<forall>x \<in> set (name_map s). x \<noteq> [] \<longrightarrow> GetName s (GetId s x) = Some x)
       \<and> (well_used n cs \<longrightarrow>
            GetName s Invalid = Some ''invalid''
          \<and> (\<forall>x. x |\<in>| fmdom (reverse_map s) \<longrightarrow> GetName s (GetId s x) = Some x))"
proof -
  have ne: "Invalid < length (name_map s)" using assms by (rule reached_nonempty)
  have a: "name |\<notin>| fmdom (reverse_map s) \<longrightarrow> GetId s name = Invalid"
    by (auto simp: GetId_def fmlookup_dom_iff split: option.splits)
  have b: "\<exists>x. GetName s i = Some x" using ne by (simp add: GetName_def)
  have c: "\<not> i < length (name_map s) \<longrightarrow> GetName s i = GetName s Invalid"
    using ne by (simp add: GetName_def)
  have d: "\<forall>x \<in> set (name_map s). x \<noteq> [] \<longrightarrow> GetName s (GetId s x) = Some x"
    using reached_weak(1) [OF assms] by (auto intro: roundtrip_slot)
  have e: "GetName s Invalid = Some ''invalid''
             \<and> (\<forall>x. x |\<in>| fmdom (reverse_map s) \<longrightarrow> GetName s (GetId s x) = Some x)"
    if "well_used n cs"
  proof -
    have "registry_inv s" using assms that by (rule reached_well_used)
    then have "invalid_slot s" and es: "entries_slotted s" by (simp_all add: registry_inv_def)
    then have "GetName s Invalid = Some ''invalid''" by (simp add: invalid_slot_def GetName_def)
    moreover have "\<forall>x. x |\<in>| fmdom (reverse_map s) \<longrightarrow> GetName s (GetId s x) = Some x"
      using es by (blast intro: roundtrip_entry)
    ultimately show ?thesis by simp
  qed
  from a b c d e show ?thesis by blast
qed

theorem lookups_reached_witness:
  "reached 3 [CallAddPair 1 ''color'', CallGetOrCreateId ''margin''] =
     Inr \<lparr>name_map = [''invalid'', ''color'', [], ''margin''],
          reverse_map = fmupd ''margin'' 3 (fmupd ''color'' 1 (fmupd ''invalid'' 0 fmempty))\<rparr>
   \<and> well_used 3 [CallAddPair 1 ''color'', CallGetOrCreateId ''margin'']
   \<and> GetId \<lparr>name_map = [''invalid'', ''color'', [], ''margin''],
          reverse_map = fmupd ''margin'' 3 (fmupd ''color'' 1 (fmupd ''invalid'' 0 fmempty))\<rparr> ''padding'' = Invalid
   \<and> GetName \<lparr>name_map = [''invalid'', ''color'', [], ''margin''],
          reverse_map = fmupd ''margin'' 3 (fmupd ''color'' 1 (fmupd ''invalid'' 0 fmempty))\<rparr> 9 = Some ''invalid''
   \<and> GetName \<lparr>name_map = [''invalid'', ''color'', [], ''margin''],
          reverse_map = fmupd ''margin'' 3 (fmupd ''color'' 1 (fmupd ''invalid'' 0 fmempty))\<rparr>
        (GetId \<lparr>name_map = [''invalid'', ''color'', [], ''margin''],
          reverse_map = fmupd ''margin'' 3 (fmupd ''color'' 1 (fmupd ''invalid'' 0 fmempty))\<rparr> ''margin'') = Some ''margin''"
proof -
  let ?cs = "[CallAddPair 1 ''color'', CallGetOrCreateId ''margin'']"
  let ?s = "\<lparr>name_map = [''invalid'', ''color'', [], ''margin''],
          reverse_map = fmupd ''margin'' 3 (fmupd ''color'' 1 (fmupd ''invalid'' 0 fmempty))\<rparr>"
  have r: "reached 3 ?cs = Inr ?s"
    by (simp add: reached_def IdNameMap_def AddPair_def GetOrCreateId_def emplace_def Invalid_def numeral_3_eq_3)
  have w: "well_used 3 ?cs" by code_simp
  from lookups_reached [OF r, of "''padding''" 9] lookups_reached [OF r, of "''margin''" 9] w r
  show ?thesis by simp
qed

text \<open>
  The claim as stated fails: \<open>AddPair (1, "a")\<close> followed by \<open>AddPair (1, "b")\<close> passes both
  assertions and leaves \<open>a\<close> registered under id 1 while slot 1 holds \<open>b\<close>; and
  \<open>AddPair (0, "x")\<close> renames slot 0, which an id out of range then reads.
\<close>

theorem lookups_counterexample:
  "(case reached 3 [CallAddPair 1 ''a'', CallAddPair 1 ''b''] of
      Inl e \<Rightarrow> False
    | Inr s \<Rightarrow> ''a'' |\<in>| fmdom (reverse_map s) \<and> GetId s ''a'' = 1 \<and> GetName s (GetId s ''a'') = Some ''b'')
   \<and> (case reached 3 [CallAddPair 0 ''x''] of
      Inl e \<Rightarrow> False
    | Inr s \<Rightarrow> \<not> 7 < length (name_map s) \<and> GetName s 7 = Some ''x'')"
  by code_simp

text \<open>
  Claim C6, as amended. \<open>AddPair (i, name)\<close> fails its assertions exactly when \<open>i\<close> is no
  index of the name sequence or \<open>name\<close> is already a key of the reverse map (under any
  id). Otherwise it records the pair: \<open>GetId\<close> of the name is \<open>i\<close>, \<open>GetName\<close> of \<open>i\<close> is the
  name, every other slot and every other reverse-map entry is as before; no existing
  entry of the reverse map changes.
\<close>

theorem AddPair_fails_iff:
  "(isl (AddPair s i name) \<longleftrightarrow> \<not> i < length (name_map s) \<or> name |\<in>| fmdom (reverse_map s))
   \<and> (\<forall>s'. AddPair s i name = Inr s' \<longrightarrow>
          GetId s' name = i \<and> GetName s' i = Some name
        \<and> length (name_map s') = length (name_map s)
        \<and> (\<forall>j. j \<noteq> i \<longrightarrow> name_map s' ! j = name_map s ! j)
        \<and> (\<forall>x. x \<noteq> name \<longrightarrow> fmlookup (reverse_map s') x = fmlookup (reverse_map s) x)
        \<and> (\<forall>x j. fmlookup (reverse_map s) x = Some j \<longrightarrow> fmlookup (reverse_map s') x = Some j))"
proof -
  have "isl (AddPair s i name) \<longleftrightarrow> \<not> i < length (name_map s) \<or> name |\<in>| fmdom (reverse_map s)"
    by (auto simp: AddPair_def emplace_def Let_def fmlookup_dom_iff split: option.splits)
  moreover have "GetId s' name = i \<and> GetName s' i = Some name
        \<and> length (name_map s') = length (name_map s)
        \<and> (\<forall>j. j \<noteq> i \<longrightarrow> name_map s' ! j = name_map s ! j)
        \<and> (\<forall>x. x \<noteq> name \<longrightarrow> fmlookup (reverse_map s') x = fmlookup (reverse_map s) x)
        \<and> (\<forall>x j. fmlookup (reverse_map s) x = Some j \<longrightarrow> fmlookup (reverse_map s') x = Some j)"
    if "AddPair s i name = Inr s'" for s'
    using that unfolding AddPair_Inr_iff by (auto simp: GetId_def GetName_def)
  ultimately show ?thesis by blast
qed

theorem AddPair_fails_iff_witness:
  "AddPair \<lparr>name_map = [''invalid'', [], []], reverse_map = fmupd ''invalid'' 0 fmempty\<rparr> 1 ''color'' =
     Inr \<lparr>name_map = [''invalid'', ''color'', []],
          reverse_map = fmupd ''color'' 1 (fmupd ''invalid'' 0 fmempty)\<rparr>
   \<and> GetId \<lparr>name_map = [''invalid'', ''color'', []],
          reverse_map = fmupd ''color'' 1 (fmupd ''invalid'' 0 fmempty)\<rparr> ''color'' = 1
   \<and> isl (AddPair \<lparr>name_map = [''invalid'', [], []], reverse_map = fmupd ''invalid'' 0 fmempty\<rparr> 3 ''color'')
   \<and> isl (AddPair \<lparr>name_map = [''invalid'', [], []], reverse_map = fmupd ''invalid'' 0 fmempty\<rparr> 2 ''invalid'')"
proof -
  let ?s = "\<lparr>name_map = [''invalid'', [], []], reverse_map = fmupd ''invalid'' 0 fmempty\<rparr>"
  have ok: "AddPair ?s 1 ''color'' =
     Inr \<lparr>name_map = [''invalid'', ''color'', []],
          reverse_map = fmupd ''color'' 1 (fmupd ''invalid'' 0 fmempty)\<rparr>"
    by (simp add: AddPair_def emplace_def)
  from AddPair_fails_iff [of ?s 1 "''color''"] AddPair_fails_iff [of ?s 3 "''color''"]
    AddPair_fails_iff [of ?s 2 "''invalid''"] ok
  show ?thesis by simp
qed

text \<open>
  The claim as stated fails: after \<open>AddPair (1, "a")\<close> slot 1 is named, and yet
  \<open>AddPair (1, "b")\<close> passes both assertions and renames the slot, while \<open>a\<close> stays
  registered under id 1.
\<close>

theorem AddPair_counterexample:
  "(case reached 3 [CallAddPair 1 ''a''] of
      Inl e \<Rightarrow> False
    | Inr s \<Rightarrow> 1 < length (name_map s) \<and> name_map s ! 1 = ''a''
         \<and> (case AddPair s 1 ''b'' of Inl e \<Rightarrow> False
             | Inr s' \<Rightarrow> GetName s' 1 = Some ''b'' \<and> GetId s' ''a'' = 1))"
  by code_simp

text \<open>
  Claim C7, as amended. In every state reached from a constructed registry by calls that
  passed their assertions, every non-empty slot has its entry in the reverse map under its
  own index, and every id of the reverse map is an index of the name sequence. When the
  calls also kept to the registration discipline (no empty name, and \<open>AddPair\<close> only on a
  slot that is still empty), the whole invariant holds: every entry of the reverse map
  is the non-empty name of its slot as well, and slot 0 holds \<open>invalid\<close>.
\<close>

theorem registry_invariant_reached:
  assumes "reached n cs = Inr s"
  shows "slots_indexed s \<and> entries_in_range s \<and> (well_used n cs \<longrightarrow> registry_inv s)"
proof -
  have "slots_indexed s" and "entries_in_range s"
    using assms by (rule reached_weak)+
  moreover have "registry_inv s" if "well_used n cs"
    using assms that by (rule reached_well_used)
  ultimately show ?thesis by simp
qed

theorem registry_invariant_reached_witness:
  "reached 3 [CallAddPair 2 ''color'', CallGetOrCreateId ''margin''] =
     Inr \<lparr>name_map = [''invalid'', [], ''color'', ''margin''],
          reverse_map = fmupd ''margin'' 3 (fmupd ''color'' 2 (fmupd ''invalid'' 0 fmempty))\<rparr>
   \<and> well_used 3 [CallAddPair 2 ''color'', CallGetOrCreateId ''margin'']
   \<and> registry_inv \<lparr>name_map = [''invalid'', [], ''color'', ''margin''],
          reverse_map = fmupd ''margin'' 3 (fmupd ''color'' 2 (fmupd ''invalid'' 0 fmempty))\<rparr>"
proof -
  let ?cs = "[CallAddPair 2 ''color'', CallGetOrCreateId ''margin'']"
  have r: "reached 3 ?cs =
     Inr \<lparr>name_map = [''invalid'', [], ''color'', ''margin''],
          reverse_map = fmupd ''margin'' 3 (fmupd ''color'' 2 (fmupd ''invalid'' 0 fmempty))\<rparr>"
    by (simp add: reached_def IdNameMap_def AddPair_def GetOrCreateId_def emplace_def Invalid_def
        numeral_3_eq_3 numeral_2_eq_2)
  have w: "well_used 3 ?cs" by code_simp
  from registry_invariant_reached [OF r] w r show ?thesis by simp
qed

text \<open>
  The claim as stated fails in three ways, each by calls that pass every assertion:
  renaming a named slot leaves the old name in the reverse map with no slot;
  \<open>AddPair (0, "x")\<close> renames slot 0; and \<open>GetOrCreateId ("")\<close> adds a reverse-map entry
  whose slot is empty.
\<close>

theorem registry_invariant_counterexample:
  "(case reached 3 [CallAddPair 1 ''a'', CallAddPair 1 ''b''] of
      Inl e \<Rightarrow> False | Inr s \<Rightarrow> \<not> registry_inv s)
   \<and> (case reached 3 [CallAddPair 0 ''x''] of
      Inl e \<Rightarrow> False | Inr s \<Rightarrow> \<not> registry_inv s)
   \<and> (case reached 3 [CallGetOrCreateId []] of
      Inl e \<Rightarrow> False | Inr s \<Rightarrow> \<not> registry_inv s)"
  by code_simp

text \<open>
  Claim C10. The constructor of \<open>ShorthandIdNameMap\<close> ignores its argument: any two
  arguments build the same registry, whose name sequence has \<open>2 * NumDefinedIds\<close> slots
  (the constructor's assertion fails only when that number is 0), whereas
  \<open>PropertyIdNameMap\<close> builds a name sequence of as many slots as its argument says.
\<close>

theorem ShorthandIdNameMap_capacity:
  "ShorthandIdNameMap N r = ShorthandIdNameMap N r'
   \<and> (case ShorthandIdNameMap N r of Inl e \<Rightarrow> N = 0 | Inr s \<Rightarrow> length (name_map s) = 2 * N)
   \<and> (case PropertyIdNameMap r of Inl e \<Rightarrow> r = 0 | Inr s \<Rightarrow> length (name_map s) = r)"
  by (auto simp: ShorthandIdNameMap_def PropertyIdNameMap_def IdNameMap_def AddPair_def emplace_def
      Invalid_def Let_def split: sum.splits)

section \<open>Properties of the declaration parser\<close>

lemma parse_item_property:
  "parse_item nested spec source_file line d (PropertyItem p) t =
     Some (case parsed spec p t of
             None \<Rightarrow> (False, d)
           | Some v \<Rightarrow> (True, d(p \<mapsto> entry source_file line v)))"
  by (simp add: parse_item_def ParsePropertyDeclaration_def parsed_def entry_def split: option.splits)

lemma ParsePropertyValues_nonempty:
  "ParsePropertyValues v sv = Some ts \<Longrightarrow> ts \<noteq> []"
  by (auto simp: ParsePropertyValues_def split: list.splits)

lemma ParseShorthandDeclaration_known:
  assumes "ParsePropertyValues property_value True = Some tokens"
      and "GetShorthand spec sid = Some sh"
  shows "ParseShorthandDeclaration (Suc depth) spec d sid property_value source_file line =
     (let p = parse_item
                (\<lambda>d s v. ParseShorthandDeclaration depth spec d s v source_file line)
                spec source_file line
      in case shorthand_type sh of
           FallThrough \<Rightarrow> fall_through p d (items sh) tokens
         | Replicate \<Rightarrow> replicate_items p d (items sh) tokens
         | Box \<Rightarrow> box_items p d (items sh) tokens
         | Recursive \<Rightarrow> resolve_each p d (items sh) property_value)"
  using assms by simp

lemma box_four_sides:
  assumes "\<And>d it t. it \<in> {PropertyItem ptop, PropertyItem pright, PropertyItem pbottom, PropertyItem pleft} \<Longrightarrow>
             p d it t = parse_item nested spec source_file line d it t"
  shows "box_outcome spec source_file line d ptop pright pbottom pleft a b c e
     (parse_each p d [(PropertyItem ptop, a), (PropertyItem pright, b), (PropertyItem pbottom, c), (PropertyItem pleft, e)])"
  using assms
  by (auto simp: box_outcome_def parse_item_property split: option.splits)

lemma box_tokens_None:
  "length ts \<notin> {1, 2, 4} \<Longrightarrow> box_tokens ts = None"
  by (cases ts rule: box_tokens.cases) auto

lemma write_all_frame:
  "k \<notin> fst ` set kes \<Longrightarrow> write_all d kes k = d k"
  by (induction kes arbitrary: d) auto

lemma zip_replicate_same:
  "zip qs (replicate (length qs) x) = map (\<lambda>q. (q, x)) qs"
  by (induction qs) auto

lemma replicate_last_properties:
  "replicate_last p d (Some pv) t (map PropertyItem qs) =
     Some (True, write_all d (map (\<lambda>q. (q, pv)) qs))"
  by (induction qs arbitrary: d) auto

lemma replicate_walk_properties:
  assumes p: "\<And>d q t. p d (PropertyItem q) t = parse_item nested spec source_file line d (PropertyItem q) t"
  shows "list_all2 (\<lambda>(q, t) v. parsed spec q t = Some v) (zip ps ts) vs \<Longrightarrow> ts \<noteq> [] \<Longrightarrow>
         length ts \<le> length ps \<Longrightarrow>
         replicate_walk p d (map PropertyItem ps) ts =
           Some (True, write_all d
             (zip ps (map (entry source_file line) (vs @ replicate (length ps - length ts) (last vs)))))"
proof (induction ps arbitrary: ts vs d)
  case Nil
  then show ?case by simp
next
  case (Cons q qs)
  from Cons.prems(2) obtain t ts' where ts: "ts = t # ts'" by (cases ts) auto
  with Cons.prems(1) obtain v vs' where vs: "vs = v # vs'" and v: "parsed spec q t = Some v"
    and rest: "list_all2 (\<lambda>(q, t) v. parsed spec q t = Some v) (zip qs ts') vs'"
    by (auto simp: list_all2_Cons1)
  show ?case
  proof (cases "ts' = []")
    case True
    with rest have "vs' = []" by simp
    with True ts vs v show ?thesis
      by (simp add: p parse_item_property last_value_def replicate_last_properties zip_replicate_same [symmetric])
  next
    case False
    from Cons.prems(3) ts have len: "length ts' \<le> length qs" by simp
    with False rest have ne: "vs' \<noteq> []" by (cases qs; cases ts') auto
    have "replicate_walk p d (map PropertyItem (q # qs)) ts =
        replicate_walk p (d(q \<mapsto> entry source_file line v)) (map PropertyItem qs) ts'"
      using v ts False by (simp add: p parse_item_property)
    also note Cons.IH [OF rest False len]
    also have "write_all (d(q \<mapsto> entry source_file line v))
          (zip qs (map (entry source_file line) (vs' @ replicate (length qs - length ts') (last vs')))) =
        write_all d
          (zip (q # qs) (map (entry source_file line) (vs @ replicate (length (q # qs) - length ts) (last vs))))"
      using ne ts vs by simp
    finally show ?thesis .
  qed
qed

lemma replicate_walk_failure:
  assumes p: "\<And>d q t. p d (PropertyItem q) t = parse_item nested spec source_file line d (PropertyItem q) t"
  shows "\<exists>(q, t) \<in> set (zip ps ts). parsed spec q t = None \<Longrightarrow>
         map_option fst (replicate_walk p d (map PropertyItem ps) ts) = Some False"
proof (induction ps arbitrary: ts d)
  case Nil
  then show ?case by simp
next
  case (Cons q qs)
  then obtain t ts' where ts: "ts = t # ts'" by (cases ts) auto
  show ?case
  proof (cases "parsed spec q t")
    case None
    with ts show ?thesis by (simp add: p parse_item_property)
  next
    case (Some v)
    with Cons.prems ts have later: "\<exists>(q, t) \<in> set (zip qs ts'). parsed spec q t = None" by auto
    then have ne: "ts' \<noteq> []" by auto
    have "replicate_walk p d (map PropertyItem (q # qs)) ts =
        replicate_walk p (d(q \<mapsto> entry source_file line v)) (map PropertyItem qs) ts'"
      using Some ts ne by (simp add: p parse_item_property)
    with Cons.IH [OF later] show ?thesis by simp
  qed
qed

lemma fall_through_properties:
  "(\<And>d q t. p d (PropertyItem q) t = parse_item nested spec source_file line d (PropertyItem q) t) \<Longrightarrow>
     \<exists>ok. fall_through p d (map PropertyItem ps) ts =
           Some (ok, write_all d
             (map (\<lambda>(q, v). (q, entry source_file line v)) (fall_through_matches spec ps ts)))"
proof (induction spec ps ts arbitrary: d rule: fall_through_matches.induct)
  case (1 spec ps)
  then show ?case by auto
next
  case (2 spec t ts)
  then show ?case by auto
next
  case (3 spec q qs t ts)
  note p = "3.prems"
  show ?case
  proof (cases "parsed spec q t")
    case None
    have "fall_through p d (map PropertyItem (q # qs)) (t # ts) =
        fall_through p d (map PropertyItem qs) (t # ts)"
      using None by (simp add: p parse_item_property)
    with "3.IH"(1) [OF None p, of d] None show ?thesis by simp
  next
    case (Some v)
    have "fall_through p d (map PropertyItem (q # qs)) (t # ts) =
        fall_through p (d(q \<mapsto> entry source_file line v)) (map PropertyItem qs) ts"
      using Some by (simp add: p parse_item_property)
    moreover from "3.IH"(2) [OF Some p, of "d(q \<mapsto> entry source_file line v)"]
    obtain ok where "fall_through p (d(q \<mapsto> entry source_file line v)) (map PropertyItem qs) ts =
        Some (ok, write_all (d(q \<mapsto> entry source_file line v))
          (map (\<lambda>(q, v). (q, entry source_file line v)) (fall_through_matches spec qs ts)))"
      by blast
    moreover have "write_all d (map (\<lambda>(q, v). (q, entry source_file line v))
          (fall_through_matches spec (q # qs) (t # ts))) =
        write_all (d(q \<mapsto> entry source_file line v))
          (map (\<lambda>(q, v). (q, entry source_file line v)) (fall_through_matches spec qs ts))"
      using Some by simp
    ultimately show ?thesis by (simp only:) blast
  qed
qed

lemma set_default_None: "set_default d None = d"
  by (simp add: set_default_def)

lemma set_default_Some:
  "set_default d (Some def) k =
     (if k = property_id def \<and> d k = None then Some (default_entry def) else d k)"
  by (auto simp: set_default_def)

lemma set_defaults_result:
  "foldl set_default d ps k =
     (case d k of
        Some e \<Rightarrow> Some e
      | None \<Rightarrow> map_option default_entry
          (find (\<lambda>def. property_id def = k) (List.map_filter (\<lambda>x. x) ps)))"
proof (induction ps arbitrary: d)
  case Nil
  then show ?case by (simp split: option.splits)
next
  case (Cons x ps)
  have step: "foldl set_default d (x # ps) k =
      (case set_default d x k of
         Some e \<Rightarrow> Some e
       | None \<Rightarrow> map_option default_entry
           (find (\<lambda>def. property_id def = k) (List.map_filter (\<lambda>x. x) ps)))"
    using Cons.IH [of "set_default d x"] by simp
  show ?case
  proof (cases x)
    case None
    with step show ?thesis
      by (cases "d k") (simp_all add: set_default_None)
  next
    case (Some def)
    with step show ?thesis
      by (cases "d k") (simp_all add: set_default_Some)
  qed
qed

lemma find_distinct_id:
  "distinct (map property_id xs) \<Longrightarrow> def \<in> set xs \<Longrightarrow>
     find (\<lambda>x. property_id x = property_id def) xs = Some def"
proof (induction xs)
  case Nil
  then show ?case by simp
next
  case (Cons x xs)
  show ?case
  proof (cases "x = def")
    case True
    then show ?thesis by simp
  next
    case False
    with Cons.prems have mem: "def \<in> set xs" by simp
    then have "property_id def \<in> property_id ` set xs" by (rule imageI)
    with Cons.prems(1) have "property_id x \<noteq> property_id def" by (metis distinct.simps(2) list.simps(9) list.set_map)
    with Cons.IH mem Cons.prems(1) show ?thesis by simp
  qed
qed

lemma find_registered_id:
  "def \<in> set xs \<Longrightarrow> \<exists>def'. find (\<lambda>x. property_id x = property_id def) xs = Some def'"
  by (cases "find (\<lambda>x. property_id x = property_id def) xs") (auto simp: find_None_iff)

lemma find_in_registered:
  "find (\<lambda>x. property_id x = k) xs = Some def \<Longrightarrow> k \<in> property_id ` set xs"
  by (auto simp: find_Some_iff image_iff)

lemma GetShorthand_store_at:
  "GetShorthand (spec\<lparr>shorthand_map := m, shorthands := store_at (shorthands spec) i x\<rparr>) i = Some x"
  by (simp add: GetShorthand_def store_at_def nth_list_update)

lemma assign_id_GetId:
  "assign_id m name i = Inr (i', m') \<Longrightarrow> GetId m' name = i' \<and> (i \<noteq> Invalid \<longrightarrow> i' = i)"
  by (auto simp: assign_id_def GetOrCreateId_def emplace_def GetId_def AddPair_def Let_def
      split: if_splits option.splits sum.splits)

section \<open>The claims about declarations, defaults and shorthand registration\<close>

text \<open>
  Claim C1. A box shorthand over the four sides top, right, bottom, left follows the
  1/2/4-token box model: one token is matched against all four sides; two tokens go to
  (top and bottom) and (left and right); four tokens go to top, right, bottom, left in
  that order. In each case the call succeeds with every side holding the value its own
  parser made of its token, and reports failure as soon as one side fails to parse. Any
  other number of tokens (three, for one) fails and leaves the dictionary as it was.
\<close>

theorem box_shorthand:
  assumes "GetShorthand spec sid = Some sh"
      and "shorthand_type sh = Box"
      and "items sh = [PropertyItem ptop, PropertyItem pright, PropertyItem pbottom, PropertyItem pleft]"
      and "ParsePropertyValues property_value True = Some tokens"
  shows "(\<forall>a. tokens = [a] \<longrightarrow>
            box_outcome spec source_file line d ptop pright pbottom pleft a a a a
              (ParseShorthandDeclaration (Suc depth) spec d sid property_value source_file line))
       \<and> (\<forall>a b. tokens = [a, b] \<longrightarrow>
            box_outcome spec source_file line d ptop pright pbottom pleft a b a b
              (ParseShorthandDeclaration (Suc depth) spec d sid property_value source_file line))
       \<and> (\<forall>a b c e. tokens = [a, b, c, e] \<longrightarrow>
            box_outcome spec source_file line d ptop pright pbottom pleft a b c e
              (ParseShorthandDeclaration (Suc depth) spec d sid property_value source_file line))
       \<and> (length tokens \<notin> {1, 2, 4} \<longrightarrow>
            ParseShorthandDeclaration (Suc depth) spec d sid property_value source_file line = Some (False, d))"
proof -
  let ?p = "parse_item (\<lambda>d s v. ParseShorthandDeclaration depth spec d s v source_file line)
              spec source_file line"
  have run: "ParseShorthandDeclaration (Suc depth) spec d sid property_value source_file line =
      box_items ?p d (items sh) tokens"
    using assms(1,2,4) by (simp add: ParseShorthandDeclaration_known)
  have sides: "box_outcome spec source_file line d ptop pright pbottom pleft a b c e
      (parse_each ?p d [(PropertyItem ptop, a), (PropertyItem pright, b), (PropertyItem pbottom, c), (PropertyItem pleft, e)])"
    for a b c e
    by (rule box_four_sides) simp
  show ?thesis
    using sides box_tokens_None [of tokens]
    unfolding run assms(3) box_items_def by auto
qed

theorem box_shorthand_witness:
  "ParseShorthandDeclaration (Suc 0) margin_spec Map.empty 1 ''1px 2px 3px 4px'' ''a.rcss'' 7 =
     Some (True, write_all Map.empty
       [(1, entry ''a.rcss'' 7 ''1px''), (2, entry ''a.rcss'' 7 ''2px''),
        (3, entry ''a.rcss'' 7 ''3px''), (4, entry ''a.rcss'' 7 ''4px'')])
   \<and> ParseShorthandDeclaration (Suc 0) margin_spec Map.empty 1 ''5px'' ''a.rcss'' 7 =
     Some (True, write_all Map.empty
       [(1, entry ''a.rcss'' 7 ''5px''), (2, entry ''a.rcss'' 7 ''5px''),
        (3, entry ''a.rcss'' 7 ''5px''), (4, entry ''a.rcss'' 7 ''5px'')])
   \<and> ParseShorthandDeclaration (Suc 0) margin_spec Map.empty 1 ''5px 6px 7px'' ''a.rcss'' 7 =
     Some (False, Map.empty)"
proof -
  let ?sh = "\<lparr>shorthand_id = 1, shorthand_type = Box,
        items = [PropertyItem 1, PropertyItem 2, PropertyItem 3, PropertyItem 4]\<rparr>"
  have sh: "GetShorthand margin_spec 1 = Some ?sh"
    by (simp add: GetShorthand_def margin_spec_def example_spec_def)
  have ty: "shorthand_type ?sh = Box"
    and its: "items ?sh = [PropertyItem 1, PropertyItem 2, PropertyItem 3, PropertyItem 4]"
    by simp_all
  have px: "parsed margin_spec 1 t = px_parser t" "parsed margin_spec 2 t = px_parser t"
    "parsed margin_spec 3 t = px_parser t" "parsed margin_spec 4 t = px_parser t" for t
    by (simp_all add: parsed_def GetProperty_def margin_spec_def example_spec_def
        margin_properties_def example_property_def)
  have v: "px_parser ''1px'' = Some ''1px''" "px_parser ''2px'' = Some ''2px''"
    "px_parser ''3px'' = Some ''3px''" "px_parser ''4px'' = Some ''4px''"
    "px_parser ''5px'' = Some ''5px''"
    by (simp_all add: px_parser_def)
  have t4: "ParsePropertyValues ''1px 2px 3px 4px'' True = Some [''1px'', ''2px'', ''3px'', ''4px'']"
    by code_simp
  have t1: "ParsePropertyValues ''5px'' True = Some [''5px'']"
    by code_simp
  have t3: "ParsePropertyValues ''5px 6px 7px'' True = Some [''5px'', ''6px'', ''7px'']"
    by code_simp
  have "box_outcome margin_spec ''a.rcss'' 7 Map.empty 1 2 3 4 ''1px'' ''2px'' ''3px'' ''4px''
      (ParseShorthandDeclaration (Suc 0) margin_spec Map.empty 1 ''1px 2px 3px 4px'' ''a.rcss'' 7)"
    using box_shorthand [OF sh ty its t4, of "''a.rcss''" 7 Map.empty 0] by blast
  then have four: "ParseShorthandDeclaration (Suc 0) margin_spec Map.empty 1 ''1px 2px 3px 4px'' ''a.rcss'' 7 =
     Some (True, write_all Map.empty
       [(1, entry ''a.rcss'' 7 ''1px''), (2, entry ''a.rcss'' 7 ''2px''),
        (3, entry ''a.rcss'' 7 ''3px''), (4, entry ''a.rcss'' 7 ''4px'')])"
    unfolding box_outcome_def px v by (simp only: prod.case option.case)
  have "box_outcome margin_spec ''a.rcss'' 7 Map.empty 1 2 3 4 ''5px'' ''5px'' ''5px'' ''5px''
      (ParseShorthandDeclaration (Suc 0) margin_spec Map.empty 1 ''5px'' ''a.rcss'' 7)"
    using box_shorthand [OF sh ty its t1, of "''a.rcss''" 7 Map.empty 0] by blast
  then have one: "ParseShorthandDeclaration (Suc 0) margin_spec Map.empty 1 ''5px'' ''a.rcss'' 7 =
     Some (True, write_all Map.empty
       [(1, entry ''a.rcss'' 7 ''5px''), (2, entry ''a.rcss'' 7 ''5px''),
        (3, entry ''a.rcss'' 7 ''5px''), (4, entry ''a.rcss'' 7 ''5px'')])"
    unfolding box_outcome_def px v by (simp only: prod.case option.case)
  have "length [''5px'', ''6px'', ''7px''] \<notin> {1, 2, 4::nat}" by simp
  with box_shorthand [OF sh ty its t3, of "''a.rcss''" 7 Map.empty 0]
  have three: "ParseShorthandDeclaration (Suc 0) margin_spec Map.empty 1 ''5px 6px 7px'' ''a.rcss'' 7 =
     Some (False, Map.empty)"
    by blast
  from four one three show ?thesis by (simp only: simp_thms)
qed

text \<open>
  Claim C2. A replicating shorthand over property items walks items and tokens one to
  one. When the parser of an item rejects its token the whole declaration fails and no
  partial write is retained: the call returns false with the dictionary it was given.
  When there are no more tokens than items and every token parses, the call succeeds:
  each of the first items holds the value of its token and every remaining item holds the
  last parsed value.
\<close>

theorem replicate_shorthand:
  assumes "GetShorthand spec sid = Some sh"
      and "shorthand_type sh = Replicate"
      and "items sh = map PropertyItem ps"
      and "ParsePropertyValues property_value True = Some tokens"
  shows "((\<exists>(q, t) \<in> set (zip ps tokens). parsed spec q t = None) \<longrightarrow>
            ParseShorthandDeclaration (Suc depth) spec d sid property_value source_file line =
              Some (False, d))
       \<and> (\<forall>vs. length tokens \<le> length ps
              \<and> list_all2 (\<lambda>(q, t) v. parsed spec q t = Some v) (zip ps tokens) vs \<longrightarrow>
            ParseShorthandDeclaration (Suc depth) spec d sid property_value source_file line =
              Some (True, write_all d
                (zip ps (map (entry source_file line)
                   (vs @ replicate (length ps - length tokens) (last vs))))))"
proof -
  let ?p = "parse_item (\<lambda>d s v. ParseShorthandDeclaration depth spec d s v source_file line)
              spec source_file line"
  have run: "ParseShorthandDeclaration (Suc depth) spec d sid property_value source_file line =
      replicate_items ?p d (map PropertyItem ps) tokens"
    using assms by (simp add: ParseShorthandDeclaration_known)
  have ne: "tokens \<noteq> []" using assms(4) by (rule ParsePropertyValues_nonempty)
  have "replicate_items ?p d (map PropertyItem ps) tokens = Some (False, d)"
    if "\<exists>(q, t) \<in> set (zip ps tokens). parsed spec q t = None"
  proof -
    have "map_option fst (replicate_walk ?p d (map PropertyItem ps) tokens) = Some False"
      using that by (intro replicate_walk_failure) simp_all
    then obtain d' where "replicate_walk ?p d (map PropertyItem ps) tokens = Some (False, d')"
      by (cases "replicate_walk ?p d (map PropertyItem ps) tokens") auto
    then show ?thesis by (simp add: replicate_items_def)
  qed
  moreover have "replicate_items ?p d (map PropertyItem ps) tokens =
      Some (True, write_all d
        (zip ps (map (entry source_file line) (vs @ replicate (length ps - length tokens) (last vs)))))"
    if "length tokens \<le> length ps"
      and "list_all2 (\<lambda>(q, t) v. parsed spec q t = Some v) (zip ps tokens) vs" for vs
  proof -
    have "replicate_walk ?p d (map PropertyItem ps) tokens =
      Some (True, write_all d
        (zip ps (map (entry source_file line) (vs @ replicate (length ps - length tokens) (last vs)))))"
      using that ne by (intro replicate_walk_properties) simp_all
    then show ?thesis by (simp add: replicate_items_def)
  qed
  ultimately show ?thesis unfolding run by blast
qed

theorem replicate_shorthand_witness:
  "ParseShorthandDeclaration (Suc 0) border_color_spec Map.empty 1 ''red green'' ''a.rcss'' 7 =
     Some (True, write_all Map.empty
       [(1, entry ''a.rcss'' 7 ''red''), (2, entry ''a.rcss'' 7 ''green''),
        (3, entry ''a.rcss'' 7 ''green''), (4, entry ''a.rcss'' 7 ''green'')])
   \<and> ParseShorthandDeclaration (Suc 0) border_color_spec Map.empty 1 ''red'' ''a.rcss'' 7 =
     Some (True, write_all Map.empty
       [(1, entry ''a.rcss'' 7 ''red''), (2, entry ''a.rcss'' 7 ''red''),
        (3, entry ''a.rcss'' 7 ''red''), (4, entry ''a.rcss'' 7 ''red'')])
   \<and> ParseShorthandDeclaration (Suc 0) border_color_spec Map.empty 1 ''red 12px'' ''a.rcss'' 7 =
     Some (False, Map.empty)"
proof -
  let ?sh = "\<lparr>shorthand_id = 1, shorthand_type = Replicate, items = map PropertyItem [1, 2, 3, 4]\<rparr>"
  have sh: "GetShorthand border_color_spec 1 = Some ?sh"
    by (simp add: GetShorthand_def border_color_spec_def example_spec_def)
  have ty: "shorthand_type ?sh = Replicate" and its: "items ?sh = map PropertyItem [1, 2, 3, 4]"
    by simp_all
  have kw: "parsed border_color_spec 1 t = keyword_parser colours t"
    "parsed border_color_spec (Suc 0) t = keyword_parser colours t"
    "parsed border_color_spec 2 t = keyword_parser colours t"
    "parsed border_color_spec 3 t = keyword_parser colours t"
    "parsed border_color_spec 4 t = keyword_parser colours t" for t
    by (simp_all add: parsed_def GetProperty_def border_color_spec_def example_spec_def
        example_property_def)
  have v: "keyword_parser colours ''red'' = Some ''red''"
    "keyword_parser colours ''green'' = Some ''green''"
    "keyword_parser colours ''12px'' = None"
    by (simp_all add: keyword_parser_def colours_def)
  have t2: "ParsePropertyValues ''red green'' True = Some [''red'', ''green'']"
    by code_simp
  have t1: "ParsePropertyValues ''red'' True = Some [''red'']"
    by code_simp
  have tb: "ParsePropertyValues ''red 12px'' True = Some [''red'', ''12px'']"
    by code_simp
  have "length [''red'', ''green''] \<le> length [1, 2, 3, 4::nat]
      \<and> list_all2 (\<lambda>(q, t) v. parsed border_color_spec q t = Some v)
          (zip [1, 2, 3, 4] [''red'', ''green'']) [''red'', ''green'']"
    by (simp add: kw v)
  with replicate_shorthand [OF sh ty its t2, of 0 Map.empty "''a.rcss''" 7]
  have two: "ParseShorthandDeclaration (Suc 0) border_color_spec Map.empty 1 ''red green'' ''a.rcss'' 7 =
      Some (True, write_all Map.empty
        (zip [1, 2, 3, 4] (map (entry ''a.rcss'' 7)
           ([''red'', ''green''] @ replicate (length [1, 2, 3, 4::nat] - length [''red'', ''green'']) (last [''red'', ''green''])))))"
    by blast
  have "length [''red''] \<le> length [1, 2, 3, 4::nat]
      \<and> list_all2 (\<lambda>(q, t) v. parsed border_color_spec q t = Some v)
          (zip [1, 2, 3, 4] [''red'']) [''red'']"
    by (simp add: kw v)
  with replicate_shorthand [OF sh ty its t1, of 0 Map.empty "''a.rcss''" 7]
  have one: "ParseShorthandDeclaration (Suc 0) border_color_spec Map.empty 1 ''red'' ''a.rcss'' 7 =
      Some (True, write_all Map.empty
        (zip [1, 2, 3, 4] (map (entry ''a.rcss'' 7)
           ([''red''] @ replicate (length [1, 2, 3, 4::nat] - length [''red'']) (last [''red''])))))"
    by blast
  have "\<exists>(q, t) \<in> set (zip [1, 2, 3, 4] [''red'', ''12px'']). parsed border_color_spec q t = None"
    by (simp add: kw v)
  with replicate_shorthand [OF sh ty its tb, of 0 Map.empty "''a.rcss''" 7]
  have bad: "ParseShorthandDeclaration (Suc 0) border_color_spec Map.empty 1 ''red 12px'' ''a.rcss'' 7 =
     Some (False, Map.empty)"
    by blast
  from two one bad show ?thesis
    by (simp del: ParseShorthandDeclaration.simps add: numeral_eq_Suc)
qed

text \<open>
  Claim C3. A fall-through shorthand over property items writes exactly the matches of
  the walk, in which a token rejected by the current item is tried on the next item and
  the rejecting item gets nothing. Every key that is not matched, among them every item
  that ends the walk without a token, keeps what the dictionary held before the call: no
  default is written and no earlier value is lost.
\<close>

theorem fall_through_shorthand:
  assumes "GetShorthand spec sid = Some sh"
      and "shorthand_type sh = FallThrough"
      and "items sh = map PropertyItem ps"
      and "ParsePropertyValues property_value True = Some tokens"
  shows "\<exists>ok d'. ParseShorthandDeclaration (Suc depth) spec d sid property_value source_file line = Some (ok, d')
           \<and> d' = write_all d (map (\<lambda>(q, v). (q, entry source_file line v))
                    (fall_through_matches spec ps tokens))
           \<and> (\<forall>k. k \<notin> fst ` set (fall_through_matches spec ps tokens) \<longrightarrow> d' k = d k)"
proof -
  let ?p = "parse_item (\<lambda>d s v. ParseShorthandDeclaration depth spec d s v source_file line)
              spec source_file line"
  have run: "ParseShorthandDeclaration (Suc depth) spec d sid property_value source_file line =
      fall_through ?p d (map PropertyItem ps) tokens"
    using assms by (simp add: ParseShorthandDeclaration_known)
  obtain ok where "fall_through ?p d (map PropertyItem ps) tokens =
      Some (ok, write_all d (map (\<lambda>(q, v). (q, entry source_file line v))
        (fall_through_matches spec ps tokens)))"
    using fall_through_properties [of ?p _ spec source_file line d ps tokens] by auto
  moreover have "write_all d (map (\<lambda>(q, v). (q, entry source_file line v))
        (fall_through_matches spec ps tokens)) k = d k"
    if "k \<notin> fst ` set (fall_through_matches spec ps tokens)" for k
    using that by (intro write_all_frame) (auto simp: image_iff)
  ultimately show ?thesis unfolding run by auto
qed

theorem fall_through_shorthand_witness:
  "map_option snd
     (ParseShorthandDeclaration (Suc 0) font_spec
        [1 \<mapsto> entry ''base.rcss'' 3 ''italic''] 1 ''bold'' ''a.rcss'' 7) =
     Some (write_all [1 \<mapsto> entry ''base.rcss'' 3 ''italic''] [(2, entry ''a.rcss'' 7 ''bold'')])
   \<and> map_option (\<lambda>r. snd r 1)
     (ParseShorthandDeclaration (Suc 0) font_spec
        [1 \<mapsto> entry ''base.rcss'' 3 ''italic''] 1 ''bold'' ''a.rcss'' 7) =
     Some (Some (entry ''base.rcss'' 3 ''italic''))"
proof -
  let ?sh = "\<lparr>shorthand_id = 1, shorthand_type = FallThrough, items = map PropertyItem [1, 2]\<rparr>"
  let ?d = "[1 \<mapsto> entry ''base.rcss'' 3 ''italic'']"
  have sh: "GetShorthand font_spec 1 = Some ?sh"
    by (simp add: GetShorthand_def font_spec_def example_spec_def)
  have ty: "shorthand_type ?sh = FallThrough" and its: "items ?sh = map PropertyItem [1, 2]"
    by simp_all
  have kw: "parsed font_spec (Suc 0) ''bold'' = None" "parsed font_spec 2 ''bold'' = Some ''bold''"
    by (simp_all add: parsed_def GetProperty_def font_spec_def example_spec_def
        example_property_def keyword_parser_def)
  have t: "ParsePropertyValues ''bold'' True = Some [''bold'']"
    by code_simp
  have m: "fall_through_matches font_spec [1, 2] [''bold''] = [(2, ''bold'')]"
    by (simp add: kw)
  from fall_through_shorthand [OF sh ty its t, of 0 ?d "''a.rcss''" 7]
  obtain ok d' where r: "ParseShorthandDeclaration (Suc 0) font_spec ?d 1 ''bold'' ''a.rcss'' 7 = Some (ok, d')"
    and d': "d' = write_all ?d (map (\<lambda>(q, v). (q, entry ''a.rcss'' 7 v))
        (fall_through_matches font_spec [1, 2] [''bold'']))"
    and frame: "\<forall>k. k \<notin> fst ` set (fall_through_matches font_spec [1, 2] [''bold'']) \<longrightarrow> d' k = ?d k"
    by blast
  from frame have "d' 1 = ?d 1" unfolding m by simp
  with r d' show ?thesis unfolding m by simp
qed

text \<open>
  Claim C8. After \<open>SetPropertyDefaults\<close> every entry the dictionary had is unchanged, and
  every other key holds the default entry of the first registered definition with that
  id, or nothing when there is none. So a registered property that was no key holds the
  result of parsing its own stored default string (the ids of the registered definitions
  being distinct, as in a table indexed by id), every registered property is a key, and
  no key is added beyond the registered properties.
\<close>

theorem SetPropertyDefaults_total:
  "(\<forall>k e. d k = Some e \<longrightarrow> SetPropertyDefaults spec d k = Some e)
   \<and> (\<forall>k. d k = None \<longrightarrow>
        SetPropertyDefaults spec d k =
          map_option default_entry (find (\<lambda>def. property_id def = k) (registered spec)))
   \<and> (distinct (map property_id (registered spec)) \<longrightarrow>
        (\<forall>def \<in> set (registered spec). d (property_id def) = None \<longrightarrow>
            SetPropertyDefaults spec d (property_id def) =
              Some \<lparr>parsed_value = parser def (default_value def), source = [],
                     source_line_number = 0\<rparr>))
   \<and> (\<forall>def \<in> set (registered spec). property_id def \<in> dom (SetPropertyDefaults spec d))
   \<and> dom (SetPropertyDefaults spec d) \<subseteq> dom d \<union> property_id ` set (registered spec)"
proof -
  have result: "SetPropertyDefaults spec d k =
      (case d k of
         Some e \<Rightarrow> Some e
       | None \<Rightarrow> map_option default_entry (find (\<lambda>def. property_id def = k) (registered spec)))"
    for k
    unfolding SetPropertyDefaults_def registered_def by (rule set_defaults_result)
  have kept: "\<forall>k e. d k = Some e \<longrightarrow> SetPropertyDefaults spec d k = Some e"
    by (simp add: result)
  have new: "\<forall>k. d k = None \<longrightarrow>
        SetPropertyDefaults spec d k =
          map_option default_entry (find (\<lambda>def. property_id def = k) (registered spec))"
    by (simp add: result)
  have own: "SetPropertyDefaults spec d (property_id def) =
        Some \<lparr>parsed_value = parser def (default_value def), source = [], source_line_number = 0\<rparr>"
    if "distinct (map property_id (registered spec))" "def \<in> set (registered spec)"
      "d (property_id def) = None" for def
  proof -
    from that(1,2) have "find (\<lambda>x. property_id x = property_id def) (registered spec) = Some def"
      by (rule find_distinct_id)
    with that(3) show ?thesis by (simp add: result default_entry_def)
  qed
  have total: "property_id def \<in> dom (SetPropertyDefaults spec d)"
    if "def \<in> set (registered spec)" for def
  proof -
    from that obtain def' where
      "find (\<lambda>x. property_id x = property_id def) (registered spec) = Some def'"
      using find_registered_id by blast
    then show ?thesis by (simp add: result dom_def split: option.splits)
  qed
  have bound: "dom (SetPropertyDefaults spec d) \<subseteq> dom d \<union> property_id ` set (registered spec)"
  proof
    fix k
    assume "k \<in> dom (SetPropertyDefaults spec d)"
    then obtain e where e: "SetPropertyDefaults spec d k = Some e" by blast
    show "k \<in> dom d \<union> property_id ` set (registered spec)"
    proof (cases "d k")
      case None
      with e obtain def where "find (\<lambda>def. property_id def = k) (registered spec) = Some def"
        by (auto simp: result)
      then have "k \<in> property_id ` set (registered spec)" by (rule find_in_registered)
      then show ?thesis by simp
    next
      case (Some e')
      then show ?thesis by blast
    qed
  qed
  from kept new own total bound show ?thesis by blast
qed

theorem SetPropertyDefaults_total_witness:
  "SetPropertyDefaults color_spec Map.empty 1 = Some (entry [] 0 ''black'')
   \<and> SetPropertyDefaults color_spec [1 \<mapsto> entry ''a.rcss'' 7 ''white''] 1 = Some (entry ''a.rcss'' 7 ''white'')
   \<and> 1 \<in> dom (SetPropertyDefaults color_spec Map.empty)
   \<and> SetPropertyDefaults purple_spec Map.empty 1 =
       Some \<lparr>parsed_value = None, source = [], source_line_number = 0\<rparr>"
proof -
  let ?def = "example_property 1 ''black'' (keyword_parser [''black'', ''white''])"
  let ?bad = "example_property 1 ''purple'' (keyword_parser [''black'', ''white''])"
  have reg: "registered color_spec = [?def]"
    by (simp add: registered_def color_spec_def example_spec_def)
  have reg': "registered purple_spec = [?bad]"
    by (simp add: registered_def purple_spec_def example_spec_def)
  have pid: "property_id ?def = 1" and dv: "parser ?def (default_value ?def) = Some ''black''"
    and pid': "property_id ?bad = 1" and dv': "parser ?bad (default_value ?bad) = None"
    by (simp_all add: example_property_def keyword_parser_def)
  have dist: "distinct (map property_id (registered color_spec))" by (simp add: reg)
  have mem: "?def \<in> set (registered color_spec)" by (simp add: reg)
  have dist': "distinct (map property_id (registered purple_spec))" by (simp add: reg')
  have mem': "?bad \<in> set (registered purple_spec)" by (simp add: reg')
  have absent: "Map.empty (property_id ?def) = (None :: string Property option)"
    and absent': "Map.empty (property_id ?bad) = (None :: string Property option)"
    by simp_all
  from SetPropertyDefaults_total [of Map.empty color_spec] dist mem absent
  have "SetPropertyDefaults color_spec Map.empty (property_id ?def) =
      Some \<lparr>parsed_value = parser ?def (default_value ?def), source = [], source_line_number = 0\<rparr>"
    by blast
  then have a: "SetPropertyDefaults color_spec Map.empty 1 = Some (entry [] 0 ''black'')"
    unfolding pid dv entry_def .
  from SetPropertyDefaults_total [of "[1 \<mapsto> entry ''a.rcss'' 7 ''white'']" color_spec]
  have b: "SetPropertyDefaults color_spec [1 \<mapsto> entry ''a.rcss'' 7 ''white''] 1 = Some (entry ''a.rcss'' 7 ''white'')"
    by simp
  from SetPropertyDefaults_total [of Map.empty color_spec] mem
  have "property_id ?def \<in> dom (SetPropertyDefaults color_spec Map.empty)"
    by blast
  then have c: "1 \<in> dom (SetPropertyDefaults color_spec Map.empty)"
    unfolding pid .
  from SetPropertyDefaults_total [of Map.empty purple_spec] dist' mem' absent'
  have "SetPropertyDefaults purple_spec Map.empty (property_id ?bad) =
      Some \<lparr>parsed_value = parser ?bad (default_value ?bad), source = [], source_line_number = 0\<rparr>"
    by blast
  then have e: "SetPropertyDefaults purple_spec Map.empty 1 =
       Some \<lparr>parsed_value = None, source = [], source_line_number = 0\<rparr>"
    unfolding pid' dv' .
  from a b c e show ?thesis by simp
qed

text \<open>
  Claim C9. When some name of the comma-separated list is neither a registered property
  nor a registered shorthand, \<open>RegisterShorthand\<close> returns false, without an assertion
  failure, and the table of shorthand definitions is unchanged. When every name resolves
  it returns true, and the definition found under the assigned id has the given type and
  the items in the order of the list; the one exception is an id given by the caller that
  the registry rejects, where the call ends in the assertion failure of \<open>AddPair\<close>.
\<close>

theorem RegisterShorthand_result:
  "((\<exists>name \<in> set (split_commas names).
        GetPropertyByName spec name = None \<and> GetShorthandByName spec name = None) \<longrightarrow>
      (\<exists>spec'. RegisterShorthand spec shorthand_name names ty i = Inr (False, spec')
         \<and> shorthands spec' = shorthands spec))
   \<and> ((\<forall>name \<in> set (split_commas names).
          GetPropertyByName spec name \<noteq> None \<or> GetShorthandByName spec name \<noteq> None) \<longrightarrow>
      (if i = Invalid \<or> \<not> isl (AddPair (shorthand_map spec) i shorthand_name)
       then \<exists>i' spec'. RegisterShorthand spec shorthand_name names ty i = Inr (True, spec')
         \<and> GetShorthand spec' i' =
             Some \<lparr>shorthand_id = i', shorthand_type = ty,
                   items = map (resolve_item spec) (split_commas names)\<rparr>
         \<and> GetId (shorthand_map spec') shorthand_name = i'
         \<and> (i \<noteq> Invalid \<longrightarrow> i' = i)
       else RegisterShorthand spec shorthand_name names ty i = Inl AssertionFailure))"
proof -
  have unresolved: "resolve_item spec name = InvalidItem \<longleftrightarrow>
      GetPropertyByName spec name = None \<and> GetShorthandByName spec name = None" for name
    by (simp add: resolve_item_def split: option.splits)
  have "\<exists>spec'. RegisterShorthand spec shorthand_name names ty i = Inr (False, spec')
         \<and> shorthands spec' = shorthands spec"
    if "\<exists>name \<in> set (split_commas names).
        GetPropertyByName spec name = None \<and> GetShorthandByName spec name = None"
  proof -
    from that obtain name where "name \<in> set (split_commas names)"
      and "resolve_item spec name = InvalidItem"
      by (auto simp: unresolved)
    then have "InvalidItem \<in> resolve_item spec ` set (split_commas names)" by (metis imageI)
    then have "InvalidItem \<in> set (map (resolve_item spec) (split_commas names))" by simp
    then show ?thesis by (simp add: RegisterShorthand_def)
  qed
  moreover have "if i = Invalid \<or> \<not> isl (AddPair (shorthand_map spec) i shorthand_name)
       then \<exists>i' spec'. RegisterShorthand spec shorthand_name names ty i = Inr (True, spec')
         \<and> GetShorthand spec' i' =
             Some \<lparr>shorthand_id = i', shorthand_type = ty,
                   items = map (resolve_item spec) (split_commas names)\<rparr>
         \<and> GetId (shorthand_map spec') shorthand_name = i'
         \<and> (i \<noteq> Invalid \<longrightarrow> i' = i)
       else RegisterShorthand spec shorthand_name names ty i = Inl AssertionFailure"
    if all: "\<forall>name \<in> set (split_commas names).
          GetPropertyByName spec name \<noteq> None \<or> GetShorthandByName spec name \<noteq> None"
  proof -
    from all have "resolve_item spec name \<noteq> InvalidItem"
      if "name \<in> set (split_commas names)" for name
      using that by (simp add: unresolved)
    then have valid: "InvalidItem \<notin> set (map (resolve_item spec) (split_commas names))"
      by (metis imageE list.set_map)
    show ?thesis
    proof (cases "i = Invalid \<or> \<not> isl (AddPair (shorthand_map spec) i shorthand_name)")
      case ok: True
      obtain i' m' where a: "assign_id (shorthand_map spec) shorthand_name i = Inr (i', m')"
      proof (cases "i = Invalid")
        case True
        then show ?thesis
          using that by (cases "GetOrCreateId (shorthand_map spec) shorthand_name") (simp add: assign_id_def)
      next
        case False
        with ok obtain m' where "AddPair (shorthand_map spec) i shorthand_name = Inr m'"
          by (cases "AddPair (shorthand_map spec) i shorthand_name") auto
        with False show ?thesis using that by (simp add: assign_id_def)
      qed
      with valid have "RegisterShorthand spec shorthand_name names ty i =
          Inr (True, spec\<lparr>shorthand_map := m',
                 shorthands := store_at (shorthands spec) i'
                   \<lparr>shorthand_id = i', shorthand_type = ty,
                    items = map (resolve_item spec) (split_commas names)\<rparr>\<rparr>)"
        by (simp add: RegisterShorthand_def)
      with assign_id_GetId [OF a] GetShorthand_store_at have "\<exists>i' spec'.
          RegisterShorthand spec shorthand_name names ty i = Inr (True, spec')
         \<and> GetShorthand spec' i' =
             Some \<lparr>shorthand_id = i', shorthand_type = ty,
                   items = map (resolve_item spec) (split_commas names)\<rparr>
         \<and> GetId (shorthand_map spec') shorthand_name = i'
         \<and> (i \<noteq> Invalid \<longrightarrow> i' = i)"
        by fastforce
      with ok show ?thesis by (simp only: if_True)
    next
      case False
      then obtain e where "AddPair (shorthand_map spec) i shorthand_name = Inl e" and "i \<noteq> Invalid"
        by (cases "AddPair (shorthand_map spec) i shorthand_name") auto
      then have "assign_id (shorthand_map spec) shorthand_name i = Inl AssertionFailure"
        by (cases e) (simp add: assign_id_def)
      with valid have "RegisterShorthand spec shorthand_name names ty i = Inl AssertionFailure"
        by (simp add: RegisterShorthand_def)
      with False show ?thesis by (simp only: if_False)
    qed
  qed
  ultimately show ?thesis by blast
qed

theorem RegisterShorthand_result_witness:
  "(\<exists>i' spec'. RegisterShorthand margin_unregistered ''margin''
        ''margin-top,margin-right,margin-bottom,margin-left'' Box Invalid = Inr (True, spec')
      \<and> GetShorthand spec' i' = Some \<lparr>shorthand_id = i', shorthand_type = Box,
           items = [PropertyItem 1, PropertyItem 2, PropertyItem 3, PropertyItem 4]\<rparr>
      \<and> GetId (shorthand_map spec') ''margin'' = i')
   \<and> (\<exists>spec'. RegisterShorthand margin_unregistered ''margin''
        ''margin-top,margin-middle'' Box Invalid = Inr (False, spec')
      \<and> shorthands spec' = shorthands margin_unregistered)"
proof -
  have names: "split_commas ''margin-top,margin-right,margin-bottom,margin-left'' =
      [''margin-top'', ''margin-right'', ''margin-bottom'', ''margin-left'']"
    by code_simp
  have bad_names: "split_commas ''margin-top,margin-middle'' = [''margin-top'', ''margin-middle'']"
    by code_simp
  have known: "resolve_item margin_unregistered ''margin-top'' = PropertyItem 1"
    "resolve_item margin_unregistered ''margin-right'' = PropertyItem 2"
    "resolve_item margin_unregistered ''margin-bottom'' = PropertyItem 3"
    "resolve_item margin_unregistered ''margin-left'' = PropertyItem 4"
    by code_simp+
  have props: "GetPropertyByName margin_unregistered ''margin-top'' \<noteq> None"
    "GetPropertyByName margin_unregistered ''margin-right'' \<noteq> None"
    "GetPropertyByName margin_unregistered ''margin-bottom'' \<noteq> None"
    "GetPropertyByName margin_unregistered ''margin-left'' \<noteq> None"
    by (simp_all add: GetPropertyByName_def GetProperty_def GetId_def margin_unregistered_def
        example_spec_def margin_names_def margin_properties_def Invalid_def)
  have unknown: "GetPropertyByName margin_unregistered ''margin-middle'' = None"
    "GetShorthandByName margin_unregistered ''margin-middle'' = None"
    by (simp_all add: GetPropertyByName_def GetShorthandByName_def GetProperty_def GetShorthand_def
        GetId_def margin_unregistered_def example_spec_def margin_names_def margin_properties_def
        fresh_names_def Invalid_def)
  have all: "\<forall>name \<in> set (split_commas ''margin-top,margin-right,margin-bottom,margin-left'').
      GetPropertyByName margin_unregistered name \<noteq> None \<or> GetShorthandByName margin_unregistered name \<noteq> None"
    unfolding names using props by simp
  have some: "\<exists>name \<in> set (split_commas ''margin-top,margin-middle'').
      GetPropertyByName margin_unregistered name = None \<and> GetShorthandByName margin_unregistered name = None"
    unfolding bad_names using unknown by simp
  have "Invalid = Invalid \<or> \<not> isl (AddPair (shorthand_map margin_unregistered) Invalid ''margin'')"
    by simp
  with RegisterShorthand_result [of "''margin-top,margin-right,margin-bottom,margin-left''"
      margin_unregistered "''margin''" Box Invalid] all
  have good: "\<exists>i' spec'. RegisterShorthand margin_unregistered ''margin''
        ''margin-top,margin-right,margin-bottom,margin-left'' Box Invalid = Inr (True, spec')
      \<and> GetShorthand spec' i' = Some \<lparr>shorthand_id = i', shorthand_type = Box,
           items = [PropertyItem 1, PropertyItem 2, PropertyItem 3, PropertyItem 4]\<rparr>
      \<and> GetId (shorthand_map spec') ''margin'' = i'"
    unfolding names list.map known by (simp only: if_True) blast
  from RegisterShorthand_result [of "''margin-top,margin-middle''"
      margin_unregistered "''margin''" Box Invalid] some
  have bad: "\<exists>spec'. RegisterShorthand margin_unregistered ''margin''
        ''margin-top,margin-middle'' Box Invalid = Inr (False, spec')
      \<and> shorthands spec' = shorthands margin_unregistered"
    by blast
  from good bad show ?thesis by (rule conjI)
qed

end
